theory Spec2Isabelle
  imports Complex_Main
begin

section \<open>Data model of backend/main.py\<close>

text \<open>
  A calendar date is its day number (Python's \<open>date.toordinal()\<close>): the program only
  compares dates for equality and takes \<open>(a - b).days\<close>, which is the difference of
  the day numbers. A timestamp is a number too. Python floats (hours, weight,
  target_hours, the scores) are the real numbers they denote: arithmetic is exact here,
  rounding, infinities and NaN are outside the model.
\<close>

type_synonym date = int
type_synonym datetime = int

text \<open>The three tables: one record per row, one field per column.\<close>

record sprint_row =
  s_id :: int
  s_name :: string
  s_start_date :: date
  s_end_date :: date
  s_created_at :: datetime

record habit_row =
  h_id :: int
  h_sprint_id :: int
  h_name :: string
  h_weight :: real
  h_target_hours :: real

record effort_row =
  e_id :: int
  e_habit_id :: int
  e_date :: date
  e_hours :: real
  e_created_at :: datetime

text \<open>
  The store: every table is the list of its rows, in insertion order. The store
  enforces no foreign key and no uniqueness beyond the primary keys it assigns itself.
\<close>

record database =
  sprints :: "sprint_row list"
  habits :: "habit_row list"
  effort_logs :: "effort_row list"

text \<open>The request models \<open>HabitCreate\<close>, \<open>SprintCreate\<close>, \<open>EffortCreate\<close>.\<close>

record habit_create =
  hc_name :: string
  hc_weight :: real
  hc_target_hours :: real

record sprint_create =
  sc_name :: string
  sc_start_date :: date
  sc_end_date :: date
  sc_habits :: "habit_create list"

record effort_create =
  ec_habit_id :: int
  ec_date :: date
  ec_hours :: real

text \<open>The responses of the five endpoints.\<close>

record create_sprint_response =
  sprint_id :: int
  habit_ids :: "string \<rightharpoonup> int"

record sprint_response =
  r_id :: int
  r_name :: string
  r_start_date :: date
  r_end_date :: date
  r_habits :: "habit_row list"
  r_days :: "real option list"

record daily_effort =
  habit_name :: string
  habit_id :: int
  hours :: real

datatype log_effort_response = Message string | Effort_id int

text \<open>
  The exceptions the handlers can meet: the \<open>HTTPException\<close> they raise themselves
  (status code and detail) and the \<open>ZeroDivisionError\<close> of a float division by zero.
  Failures of the store itself are not modelled: every query succeeds.
\<close>

datatype exn = HTTPException int string | ZeroDivisionError

text \<open>
  Every handler body sits in \<open>try: ... except Exception as e: raise
  HTTPException(status_code=500, detail=str(e))\<close>. \<open>HTTPException\<close> is an
  \<open>Exception\<close>, so the 404 raised inside the body is caught as well. What \<open>str\<close>
  returns for an exception is the library's business: it is a parameter.
\<close>

definition except_Exception :: "(exn \<Rightarrow> string) \<Rightarrow> exn + 'a \<Rightarrow> exn + 'a" where
  "except_Exception str r =
     (case r of Inl e \<Rightarrow> Inl (HTTPException 500 (str e)) | Inr v \<Rightarrow> Inr v)"

text \<open>
  The identity the store assigns on insert into a table with an integer primary key:
  one more than the largest identity in the table, 1 for an empty table.
\<close>

definition next_id :: "int list \<Rightarrow> int" where
  "next_id ids = fold max ids 0 + 1"

section \<open>create_sprint\<close>

text \<open>
  The loop over \<open>sprint.habits\<close>: one insert per habit, and
  \<open>habit_ids[habit.name] = habit_id\<close>.
\<close>

fun insert_habits ::
  "int \<Rightarrow> habit_create list \<Rightarrow> (string \<rightharpoonup> int) \<Rightarrow> database \<Rightarrow> (string \<rightharpoonup> int) \<times> database" where
  "insert_habits sid [] ids db = (ids, db)"
| "insert_habits sid (habit # rest) ids db =
     (let hid = next_id (map h_id (habits db));
          db' = db\<lparr>habits := habits db @
                  [\<lparr>h_id = hid, h_sprint_id = sid, h_name = hc_name habit,
                    h_weight = hc_weight habit, h_target_hours = hc_target_hours habit\<rparr>]\<rparr>
      in insert_habits sid rest (ids(hc_name habit \<mapsto> hid)) db')"

definition create_sprint_body ::
  "datetime \<Rightarrow> sprint_create \<Rightarrow> database \<Rightarrow> exn + (create_sprint_response \<times> database)" where
  "create_sprint_body now sprint db =
     (let sid = next_id (map s_id (sprints db));
          db1 = db\<lparr>sprints := sprints db @
                  [\<lparr>s_id = sid, s_name = sc_name sprint, s_start_date = sc_start_date sprint,
                    s_end_date = sc_end_date sprint, s_created_at = now\<rparr>]\<rparr>;
          (ids, db2) = insert_habits sid (sc_habits sprint) Map.empty db1
      in Inr (\<lparr>sprint_id = sid, habit_ids = ids\<rparr>, db2))"

definition create_sprint ::
  "(exn \<Rightarrow> string) \<Rightarrow> datetime \<Rightarrow> sprint_create \<Rightarrow> database
     \<Rightarrow> exn + (create_sprint_response \<times> database)" where
  "create_sprint str now sprint db = except_Exception str (create_sprint_body now sprint db)"

section \<open>get_sprint\<close>

text \<open>
  A row of \<open>SELECT e.date, e.hours, e.habit_id, h.weight, h.target_hours FROM
  effort_logs e JOIN habits h ON e.habit_id = h.id WHERE h.sprint_id = :sprint_id\<close>.
  The query has no \<open>ORDER BY\<close>: the rows come in the order of the effort table, each
  log with every habit row it joins.
\<close>

record effort_join =
  j_date :: date
  j_hours :: real
  j_habit_id :: int
  j_weight :: real
  j_target_hours :: real

definition fetch_efforts :: "database \<Rightarrow> int \<Rightarrow> effort_join list" where
  "fetch_efforts db sid =
     [\<lparr>j_date = e_date e, j_hours = e_hours e, j_habit_id = e_habit_id e,
       j_weight = h_weight h, j_target_hours = h_target_hours h\<rparr>.
        e \<leftarrow> effort_logs db, h \<leftarrow> habits db, e_habit_id e = h_id h \<and> h_sprint_id h = sid]"

text \<open>
  The scoring loop \<open>for effort in efforts\<close>, on the \<open>days\<close> list. The float division
  raises on a zero divisor, which HOL's \<open>/\<close> does not: the guard is written out.
\<close>

fun daily_scores ::
  "date \<Rightarrow> int \<Rightarrow> effort_join list \<Rightarrow> real option list \<Rightarrow> exn + real option list" where
  "daily_scores start days_count [] days = Inr days"
| "daily_scores start days_count (effort # rest) days =
     (let day_index = j_date effort - start in
      if 0 \<le> day_index \<and> day_index < days_count then
        if j_target_hours effort = 0 then Inl ZeroDivisionError
        else
          let progress = min (j_hours effort / j_target_hours effort) 1;
              score = progress * j_weight effort
          in (case days ! nat day_index of
                None \<Rightarrow> daily_scores start days_count rest (days[nat day_index := Some score])
              | Some v \<Rightarrow>
                  daily_scores start days_count rest (days[nat day_index := Some (v + score)]))
      else daily_scores start days_count rest days)"

definition get_sprint_body :: "database \<Rightarrow> int \<Rightarrow> exn + sprint_response" where
  "get_sprint_body db sid =
     (case find (\<lambda>s. s_id s = sid) (sprints db) of
        None \<Rightarrow> Inl (HTTPException 404 ''Sprint not found'')
      | Some sprint \<Rightarrow>
          let sprint_habits = filter (\<lambda>h. h_sprint_id h = sid) (habits db);
              days_count = s_end_date sprint - s_start_date sprint + 1;
              days = replicate (nat days_count) None;
              efforts = fetch_efforts db sid
          in (case daily_scores (s_start_date sprint) days_count efforts days of
                Inl e \<Rightarrow> Inl e
              | Inr days' \<Rightarrow>
                  Inr \<lparr>r_id = s_id sprint, r_name = s_name sprint,
                       r_start_date = s_start_date sprint, r_end_date = s_end_date sprint,
                       r_habits = sprint_habits, r_days = days'\<rparr>))"

definition get_sprint :: "(exn \<Rightarrow> string) \<Rightarrow> database \<Rightarrow> int \<Rightarrow> exn + sprint_response" where
  "get_sprint str db sid = except_Exception str (get_sprint_body db sid)"

section \<open>get_daily_efforts\<close>

definition get_daily_efforts_body :: "database \<Rightarrow> int \<Rightarrow> date \<Rightarrow> exn + daily_effort list" where
  "get_daily_efforts_body db sid d =
     (let sprint_habits = filter (\<lambda>h. h_sprint_id h = sid) (habits db) in
      if sprint_habits = [] then Inl (HTTPException 404 ''Sprint not found or has no habits'')
      else Inr (map (\<lambda>habit.
                  \<lparr>habit_name = h_name habit, habit_id = h_id habit,
                   hours = (case find (\<lambda>e. e_habit_id e = h_id habit \<and> e_date e = d)
                                   (effort_logs db) of
                              Some effort \<Rightarrow> e_hours effort
                            | None \<Rightarrow> 0)\<rparr>) sprint_habits))"

definition get_daily_efforts ::
  "(exn \<Rightarrow> string) \<Rightarrow> database \<Rightarrow> int \<Rightarrow> date \<Rightarrow> exn + daily_effort list" where
  "get_daily_efforts str db sid d = except_Exception str (get_daily_efforts_body db sid d)"

section \<open>log_effort\<close>

definition log_effort_body ::
  "datetime \<Rightarrow> effort_create \<Rightarrow> database \<Rightarrow> exn + (log_effort_response \<times> database)" where
  "log_effort_body now effort db =
     (case find (\<lambda>e. e_habit_id e = ec_habit_id effort \<and> e_date e = ec_date effort)
             (effort_logs db) of
        Some existing_effort \<Rightarrow>
          Inr (Message ''Effort updated successfully'',
               db\<lparr>effort_logs :=
                    map (\<lambda>e. if e_habit_id e = ec_habit_id effort \<and> e_date e = ec_date effort
                             then e\<lparr>e_hours := ec_hours effort\<rparr> else e) (effort_logs db)\<rparr>)
      | None \<Rightarrow>
          (let eid = next_id (map e_id (effort_logs db)) in
           Inr (Effort_id eid,
                db\<lparr>effort_logs := effort_logs db @
                     [\<lparr>e_id = eid, e_habit_id = ec_habit_id effort, e_date = ec_date effort,
                       e_hours = ec_hours effort, e_created_at = now\<rparr>]\<rparr>)))"

definition log_effort ::
  "(exn \<Rightarrow> string) \<Rightarrow> datetime \<Rightarrow> effort_create \<Rightarrow> database
     \<Rightarrow> exn + (log_effort_response \<times> database)" where
  "log_effort str now effort db = except_Exception str (log_effort_body now effort db)"

section \<open>delete_sprint\<close>

definition delete_sprint_body :: "database \<Rightarrow> int \<Rightarrow> exn + (string \<times> database)" where
  "delete_sprint_body db sid =
     (let sprint_habits = filter (\<lambda>h. h_sprint_id h = sid) (habits db);
          db1 = fold (\<lambda>habit d.
                   d\<lparr>effort_logs := filter (\<lambda>e. e_habit_id e \<noteq> h_id habit) (effort_logs d)\<rparr>)
                 sprint_habits db;
          db2 = db1\<lparr>habits := filter (\<lambda>h. h_sprint_id h \<noteq> sid) (habits db1)\<rparr>;
          db3 = db2\<lparr>sprints := filter (\<lambda>s. s_id s \<noteq> sid) (sprints db2)\<rparr>
      in Inr (''Sprint deleted successfully'', db3))"

definition delete_sprint ::
  "(exn \<Rightarrow> string) \<Rightarrow> database \<Rightarrow> int \<Rightarrow> exn + (string \<times> database)" where
  "delete_sprint str db sid = except_Exception str (delete_sprint_body db sid)"


section \<open>Auxiliary definitions for the statements\<close>

text \<open>
  One possible \<open>str\<close>, used where a statement is evaluated at a concrete store: the
  detail of an \<open>HTTPException\<close>, and Python's message for a float division by zero.
\<close>

definition str_exn :: "exn \<Rightarrow> string" where
  "str_exn e = (case e of HTTPException code detail \<Rightarrow> detail
                | ZeroDivisionError \<Rightarrow> ''float division by zero'')"

text \<open>
  The invariant of the effort table: no two rows for the same (habit, date) pair.
\<close>

definition at_most_one :: "effort_row list \<Rightarrow> bool" where
  "at_most_one logs = distinct (map (\<lambda>e. (e_habit_id e, e_date e)) logs)"

text \<open>
  The \<open>where\<close> clause of the three queries on \<open>effort_logs\<close> by habit and date.
\<close>

abbreviation same_key :: "int \<Rightarrow> date \<Rightarrow> effort_row \<Rightarrow> bool" where
  "same_key hid d e \<equiv> e_habit_id e = hid \<and> e_date e = d"

text \<open>
  The store after \<open>log_effort\<close>, whatever the response.
\<close>

definition upserted :: "datetime \<Rightarrow> effort_create \<Rightarrow> database \<Rightarrow> database" where
  "upserted now effort db = (case log_effort_body now effort db of Inr (r, db') \<Rightarrow> db' | Inl e \<Rightarrow> db)"

text \<open>
  The habit rows a sprint creation adds, when the first of them gets the identity
  \<open>hid\<close>: the closed form of the loop \<open>insert_habits\<close>.
\<close>

fun new_habits :: "int \<Rightarrow> int \<Rightarrow> habit_create list \<Rightarrow> habit_row list" where
  "new_habits sid hid [] = []"
| "new_habits sid hid (c # cs) =
     \<lparr>h_id = hid, h_sprint_id = sid, h_name = hc_name c, h_weight = hc_weight c,
      h_target_hours = hc_target_hours c\<rparr> # new_habits sid (hid + 1) cs"

text \<open>
  The dictionary \<open>habit_ids\<close> after the assignments for the rows, in order.
\<close>

definition record_ids :: "habit_row list \<Rightarrow> (string \<rightharpoonup> int) \<Rightarrow> (string \<rightharpoonup> int)" where
  "record_ids rows m = fold (\<lambda>r m. m(h_name r \<mapsto> h_id r)) rows m"

text \<open>
  Every habit row refers to a sprint row of the store.
\<close>

definition habits_owned :: "database \<Rightarrow> bool" where
  "habits_owned db = (\<forall>h \<in> set (habits db). h_sprint_id h \<in> s_id ` set (sprints db))"

text \<open>
  The stores the service can be in: the empty one, and every store one of the three
  writing handlers leaves behind.
\<close>

inductive reachable :: "database \<Rightarrow> bool" where
  start: "reachable \<lparr>sprints = [], habits = [], effort_logs = []\<rparr>"
| created: "reachable db \<Longrightarrow> create_sprint_body now sprint db = Inr (r, db') \<Longrightarrow> reachable db'"
| logged: "reachable db \<Longrightarrow> log_effort_body now effort db = Inr (l, db') \<Longrightarrow> reachable db'"
| deleted: "reachable db \<Longrightarrow> delete_sprint_body db sid = Inr (m, db') \<Longrightarrow> reachable db'"

text \<open>
  A slot of \<open>days\<close> after the scores of a list of logs have been added to it: a slot
  no log touched keeps its value, the first score replaces the unset marker.
\<close>

definition slot_total :: "real option \<Rightarrow> real list \<Rightarrow> real option" where
  "slot_total slot scores =
     (if scores = [] then slot
      else Some ((case slot of None \<Rightarrow> 0 | Some v \<Rightarrow> v) + sum_list scores))"

text \<open>
  The score of one joined row, as the loop body computes it.
\<close>

definition contribution :: "effort_join \<Rightarrow> real" where
  "contribution e = min (j_hours e / j_target_hours e) 1 * j_weight e"

text \<open>
  The joined rows whose day index is \<open>i\<close>.
\<close>

definition logs_of_day :: "date \<Rightarrow> nat \<Rightarrow> effort_join list \<Rightarrow> effort_join list" where
  "logs_of_day start i efforts = filter (\<lambda>e. j_date e - start = int i) efforts"

text \<open>
  The scenario of the specification: sprint Q1 over three days with the habit Read
  (weight 50, target 2 hours), one hour logged on the first day and three on the second.
\<close>

definition q1_db :: database where
  "q1_db = \<lparr>sprints = [\<lparr>s_id = 1, s_name = ''Q1'', s_start_date = 1, s_end_date = 3,
                          s_created_at = 0\<rparr>],
            habits = [\<lparr>h_id = 1, h_sprint_id = 1, h_name = ''Read'', h_weight = 50,
                       h_target_hours = 2\<rparr>],
            effort_logs = [\<lparr>e_id = 1, e_habit_id = 1, e_date = 1, e_hours = 1, e_created_at = 0\<rparr>,
                           \<lparr>e_id = 2, e_habit_id = 1, e_date = 2, e_hours = 3, e_created_at = 0\<rparr>]\<rparr>"

text \<open>
  A sprint over days 1 to 3 with three habits: Read (weight 50, target 2), Run (weight 30,
  target 1) and Nap (weight 20, target 0). Read and Run are both logged on day 1; there
  are logs on days 0, 7 and 9, outside the range, the last one for the habit with target 0.
\<close>

definition busy_db :: database where
  "busy_db = \<lparr>sprints = [\<lparr>s_id = 1, s_name = ''Q1'', s_start_date = 1, s_end_date = 3,
                            s_created_at = 0\<rparr>],
              habits = [\<lparr>h_id = 1, h_sprint_id = 1, h_name = ''Read'', h_weight = 50,
                         h_target_hours = 2\<rparr>,
                        \<lparr>h_id = 2, h_sprint_id = 1, h_name = ''Run'', h_weight = 30,
                         h_target_hours = 1\<rparr>,
                        \<lparr>h_id = 3, h_sprint_id = 1, h_name = ''Nap'', h_weight = 20,
                         h_target_hours = 0\<rparr>],
              effort_logs =
                [\<lparr>e_id = 1, e_habit_id = 1, e_date = 0, e_hours = 5, e_created_at = 0\<rparr>,
                 \<lparr>e_id = 2, e_habit_id = 1, e_date = 1, e_hours = 1, e_created_at = 0\<rparr>,
                 \<lparr>e_id = 3, e_habit_id = 2, e_date = 1, e_hours = 2, e_created_at = 0\<rparr>,
                 \<lparr>e_id = 4, e_habit_id = 2, e_date = 7, e_hours = 1, e_created_at = 0\<rparr>,
                 \<lparr>e_id = 5, e_habit_id = 3, e_date = 9, e_hours = 1, e_created_at = 0\<rparr>]\<rparr>"

text \<open>
  What \<open>get_sprint\<close> answers for the busy store: 25 + 30 on the first day, nothing on
  the other two.
\<close>

definition busy_response :: sprint_response where
  "busy_response = \<lparr>r_id = 1, r_name = ''Q1'', r_start_date = 1, r_end_date = 3,
       r_habits = [\<lparr>h_id = 1, h_sprint_id = 1, h_name = ''Read'', h_weight = 50,
                    h_target_hours = 2\<rparr>,
                   \<lparr>h_id = 2, h_sprint_id = 1, h_name = ''Run'', h_weight = 30,
                    h_target_hours = 1\<rparr>,
                   \<lparr>h_id = 3, h_sprint_id = 1, h_name = ''Nap'', h_weight = 20,
                    h_target_hours = 0\<rparr>],
       r_days = [Some 55, None, None]\<rparr>"

text \<open>
  The store before any request.
\<close>

definition empty_db :: database where
  "empty_db = \<lparr>sprints = [], habits = [], effort_logs = []\<rparr>"

text \<open>
  A one-day sprint whose habit has a negative target, which \<open>create_sprint\<close> accepts,
  and one hour logged on that day.
\<close>

definition negative_target_db :: database where
  "negative_target_db =
     \<lparr>sprints = [\<lparr>s_id = 1, s_name = ''Q1'', s_start_date = 1, s_end_date = 1, s_created_at = 0\<rparr>],
      habits = [\<lparr>h_id = 1, h_sprint_id = 1, h_name = ''Read'', h_weight = 50,
                 h_target_hours = - 2\<rparr>],
      effort_logs = [\<lparr>e_id = 1, e_habit_id = 1, e_date = 1, e_hours = 1, e_created_at = 0\<rparr>]\<rparr>"

text \<open>
  A sprint whose end date lies four days before its start date, which
  \<open>create_sprint\<close> accepts.
\<close>

definition reversed_db :: database where
  "reversed_db =
     \<lparr>sprints = [\<lparr>s_id = 1, s_name = ''Q1'', s_start_date = 5, s_end_date = 1, s_created_at = 0\<rparr>],
      habits = [\<lparr>h_id = 1, h_sprint_id = 1, h_name = ''Read'', h_weight = 50,
                 h_target_hours = 2\<rparr>],
      effort_logs = []\<rparr>"

text \<open>
  A two-day sprint without habits.
\<close>

definition habitless_db :: database where
  "habitless_db =
     \<lparr>sprints = [\<lparr>s_id = 1, s_name = ''Q1'', s_start_date = 1, s_end_date = 2, s_created_at = 0\<rparr>],
      habits = [], effort_logs = []\<rparr>"

text \<open>
  A sprint without habits whose end date lies before its start date.
\<close>

definition habitless_reversed_db :: database where
  "habitless_reversed_db =
     \<lparr>sprints = [\<lparr>s_id = 1, s_name = ''Q1'', s_start_date = 10, s_end_date = 3, s_created_at = 0\<rparr>],
      habits = [], effort_logs = []\<rparr>"

text \<open>
  A sprint whose habit has target 0, with one log inside the sprint's range.
\<close>

definition zero_target_db :: database where
  "zero_target_db =
     \<lparr>sprints = [\<lparr>s_id = 1, s_name = ''Q1'', s_start_date = 1, s_end_date = 3, s_created_at = 0\<rparr>],
      habits = [\<lparr>h_id = 1, h_sprint_id = 1, h_name = ''Read'', h_weight = 50,
                 h_target_hours = 0\<rparr>],
      effort_logs = [\<lparr>e_id = 1, e_habit_id = 1, e_date = 2, e_hours = 1, e_created_at = 0\<rparr>]\<rparr>"

section \<open>Identities assigned by the store\<close>

lemma fold_max_ge: "(a::int) \<le> fold max xs a"
  by (induction xs arbitrary: a) (auto intro: order_trans [OF max.cobounded2])

lemma fold_max_mem: "x \<in> set xs \<Longrightarrow> (x::int) \<le> fold max xs a"
proof (induction xs arbitrary: a)
  case Nil then show ?case by simp
next
  case (Cons y ys)
  show ?case
  proof (cases "x = y")
    case True
    have "y \<le> max y a" by simp
    also have "\<dots> \<le> fold max ys (max y a)" by (rule fold_max_ge)
    finally show ?thesis using True by simp
  next
    case False
    with Cons show ?thesis by simp
  qed
qed

lemma next_id_fresh: "next_id ids \<notin> set ids"
proof
  assume "next_id ids \<in> set ids"
  then have "next_id ids \<le> fold max ids 0" by (rule fold_max_mem)
  then show False by (simp add: next_id_def)
qed

section \<open>Division by zero in the scoring loop\<close>

lemma daily_scores_zero_target:
  assumes "e \<in> set efforts" "j_target_hours e = 0"
    "0 \<le> j_date e - start" "j_date e - start < dc"
  shows "daily_scores start dc efforts days = Inl ZeroDivisionError"
  using assms
proof (induction efforts arbitrary: days)
  case Nil then show ?case by simp
next
  case (Cons x xs)
  show ?case
  proof (cases "x = e")
    case True
    with Cons.prems show ?thesis by simp
  next
    case False
    with Cons.prems have "e \<in> set xs" by simp
    then have IH: "\<And>ds. daily_scores start dc xs ds = Inl ZeroDivisionError"
      using Cons.IH Cons.prems by blast
    show ?thesis by (simp add: IH Let_def split: option.split)
  qed
qed

lemma fetch_efforts_mem:
  assumes "l \<in> set (effort_logs db)" "h \<in> set (habits db)"
    "e_habit_id l = h_id h" "h_sprint_id h = sid"
  shows "\<lparr>j_date = e_date l, j_hours = e_hours l, j_habit_id = e_habit_id l,
          j_weight = h_weight h, j_target_hours = h_target_hours h\<rparr> \<in> set (fetch_efforts db sid)"
  using assms unfolding fetch_efforts_def by auto

text \<open>
  C5. When the sprint exists, one of its habits has \<open>target_hours = 0\<close> and that habit
  has an effort log dated within the sprint's range, the body of \<open>get_sprint\<close> raises
  \<open>ZeroDivisionError\<close> and the handler answers with the failure response (status 500)
  carrying that error's message: the log is not skipped, no score is returned, and the
  failure is a response, not a crash.
\<close>

theorem get_sprint_zero_target:
  assumes "find (\<lambda>s. s_id s = sid) (sprints db) = Some sprint"
    and "h \<in> set (habits db)" and "h_sprint_id h = sid" and "h_target_hours h = 0"
    and "l \<in> set (effort_logs db)" and "e_habit_id l = h_id h"
    and "s_start_date sprint \<le> e_date l" and "e_date l \<le> s_end_date sprint"
  shows "get_sprint_body db sid = Inl ZeroDivisionError \<and>
         get_sprint str db sid = Inl (HTTPException 500 (str ZeroDivisionError))"
proof -
  let ?e = "\<lparr>j_date = e_date l, j_hours = e_hours l, j_habit_id = e_habit_id l,
          j_weight = h_weight h, j_target_hours = h_target_hours h\<rparr>"
  have mem: "?e \<in> set (fetch_efforts db sid)"
    using assms by (intro fetch_efforts_mem) auto
  have "daily_scores (s_start_date sprint) (s_end_date sprint - s_start_date sprint + 1)
          (fetch_efforts db sid) days = Inl ZeroDivisionError" for days
    by (rule daily_scores_zero_target [OF mem]) (use assms in auto)
  then have body: "get_sprint_body db sid = Inl ZeroDivisionError"
    using assms(1) by (simp add: get_sprint_body_def Let_def)
  then show ?thesis by (simp add: get_sprint_def except_Exception_def)
qed

section \<open>Retrieving an absent sprint\<close>

text \<open>
  C8. When no sprint row has the requested identity, the body of \<open>get_sprint\<close> raises
  the not-found exception (status 404, "Sprint not found"); the handler's
  \<open>except Exception\<close> catches it, and what the caller gets is the generic failure
  (status 500) whose detail is \<open>str\<close> of that exception.
\<close>

theorem get_sprint_absent:
  assumes "sid \<notin> s_id ` set (sprints db)"
  shows "get_sprint_body db sid = Inl (HTTPException 404 ''Sprint not found'') \<and>
         get_sprint str db sid =
           Inl (HTTPException 500 (str (HTTPException 404 ''Sprint not found'')))"
proof -
  have "find (\<lambda>s. s_id s = sid) (sprints db) = None"
    using assms by (auto simp: find_None_iff)
  then have "get_sprint_body db sid = Inl (HTTPException 404 ''Sprint not found'')"
    by (simp add: get_sprint_body_def)
  then show ?thesis by (simp add: get_sprint_def except_Exception_def)
qed

section \<open>The upsert keeps one row per habit and date\<close>

lemma find_Some_mem: "find P xs = Some x \<Longrightarrow> x \<in> set xs \<and> P x"
  by (induction xs) (auto split: if_splits)

lemma key_update [simp]:
  "(\<lambda>e. (e_habit_id e, e_date e)) \<circ> (\<lambda>e. if P e then e\<lparr>e_hours := v\<rparr> else e)
     = (\<lambda>e. (e_habit_id e, e_date e))"
  by (auto simp: fun_eq_iff)

lemma at_most_one_Cons:
  "at_most_one (x # xs) \<longleftrightarrow>
     (\<forall>y \<in> set xs. \<not> (e_habit_id y = e_habit_id x \<and> e_date y = e_date x)) \<and> at_most_one xs"
  by (auto simp: at_most_one_def image_iff)

lemma at_most_one_filter:
  "at_most_one logs \<Longrightarrow> e \<in> set logs \<Longrightarrow>
     filter (\<lambda>x. e_habit_id x = e_habit_id e \<and> e_date x = e_date e) logs = [e]"
proof (induction logs)
  case Nil then show ?case by simp
next
  case (Cons x xs)
  show ?case
  proof (cases "x = e")
    case True
    have "\<forall>y \<in> set xs. \<not> (e_habit_id y = e_habit_id e \<and> e_date y = e_date e)"
      using Cons.prems(1) True by (simp add: at_most_one_Cons)
    then have "filter (\<lambda>x. e_habit_id x = e_habit_id e \<and> e_date x = e_date e) xs = []"
      by (simp add: filter_empty_conv)
    with True show ?thesis by simp
  next
    case False
    with Cons.prems have mem: "e \<in> set xs" by simp
    have amo: "at_most_one xs" using Cons.prems(1) by (simp add: at_most_one_Cons)
    have "\<not> (e_habit_id x = e_habit_id e \<and> e_date x = e_date e)"
      using Cons.prems(1) mem by (auto simp: at_most_one_Cons)
    then show ?thesis using Cons.IH [OF amo mem] by simp
  qed
qed

lemma log_effort_body_update:
  assumes "find (same_key (ec_habit_id effort) (ec_date effort)) (effort_logs db) = Some ex"
  shows "log_effort_body now effort db =
     Inr (Message ''Effort updated successfully'',
          db\<lparr>effort_logs := map (\<lambda>e. if same_key (ec_habit_id effort) (ec_date effort) e
                                    then e\<lparr>e_hours := ec_hours effort\<rparr> else e) (effort_logs db)\<rparr>)"
  using assms by (simp add: log_effort_body_def)

lemma log_effort_body_insert:
  assumes "find (same_key (ec_habit_id effort) (ec_date effort)) (effort_logs db) = None"
  shows "log_effort_body now effort db =
     Inr (Effort_id (next_id (map e_id (effort_logs db))),
          db\<lparr>effort_logs := effort_logs db @
             [\<lparr>e_id = next_id (map e_id (effort_logs db)), e_habit_id = ec_habit_id effort,
               e_date = ec_date effort, e_hours = ec_hours effort, e_created_at = now\<rparr>]\<rparr>)"
  using assms by (simp add: log_effort_body_def Let_def)

lemma log_effort_body_total:
  "\<exists>r. log_effort_body now effort db = Inr (r, upserted now effort db)"
  by (auto simp: upserted_def log_effort_body_def Let_def split: option.split)

lemma upserted_at_most_one:
  assumes "at_most_one (effort_logs db)"
  shows "at_most_one (effort_logs (upserted now effort db))"
proof (cases "find (same_key (ec_habit_id effort) (ec_date effort)) (effort_logs db)")
  case None
  then have "\<forall>e \<in> set (effort_logs db). \<not> same_key (ec_habit_id effort) (ec_date effort) e"
    by (simp add: find_None_iff)
  then have "(ec_habit_id effort, ec_date effort) \<notin> (\<lambda>e. (e_habit_id e, e_date e)) ` set (effort_logs db)"
    by auto
  then show ?thesis
    using assms by (simp add: upserted_def log_effort_body_insert [OF None] at_most_one_def)
next
  case (Some ex)
  show ?thesis
    using assms by (simp add: upserted_def log_effort_body_update [OF Some] at_most_one_def)
qed

lemma upserted_rows:
  assumes "at_most_one (effort_logs db)"
  shows "\<exists>row. filter (same_key (ec_habit_id effort) (ec_date effort))
                 (effort_logs (upserted now effort db)) = [row] \<and> e_hours row = ec_hours effort"
proof (cases "find (same_key (ec_habit_id effort) (ec_date effort)) (effort_logs db)")
  case None
  then have "filter (same_key (ec_habit_id effort) (ec_date effort)) (effort_logs db) = []"
    by (simp add: find_None_iff filter_empty_conv)
  then show ?thesis
    by (simp add: upserted_def log_effort_body_insert [OF None])
next
  case (Some ex)
  let ?P = "same_key (ec_habit_id effort) (ec_date effort)"
  from Some have ex: "ex \<in> set (effort_logs db)" "?P ex"
    by (auto dest: find_Some_mem)
  have one: "filter ?P (effort_logs db) = [ex]"
    using at_most_one_filter [OF assms ex(1)] ex(2) by simp
  have "filter ?P (map (\<lambda>e. if ?P e then e\<lparr>e_hours := ec_hours effort\<rparr> else e) logs)
          = map (\<lambda>e. e\<lparr>e_hours := ec_hours effort\<rparr>) (filter ?P logs)" for logs
    by (induction logs) auto
  then show ?thesis
    by (simp add: upserted_def log_effort_body_update [OF Some] one)
qed

lemma upserted_again:
  assumes "at_most_one (effort_logs db)"
  shows "upserted now' effort (upserted now effort db) = upserted now effort db"
proof -
  let ?P = "same_key (ec_habit_id effort) (ec_date effort)"
  let ?db = "upserted now effort db"
  obtain row where row: "filter ?P (effort_logs ?db) = [row]" "e_hours row = ec_hours effort"
    using upserted_rows [OF assms] by blast
  have all: "\<forall>e \<in> set (effort_logs ?db). ?P e \<longrightarrow> e_hours e = ec_hours effort"
  proof (intro ballI impI)
    fix e assume "e \<in> set (effort_logs ?db)" "?P e"
    then have "e \<in> set (filter ?P (effort_logs ?db))" by simp
    with row show "e_hours e = ec_hours effort" by simp
  qed
  have "row \<in> set (filter ?P (effort_logs ?db))" using row by simp
  then have "\<exists>e \<in> set (effort_logs ?db). ?P e" by auto
  then obtain ex where Some: "find ?P (effort_logs ?db) = Some ex"
    by (cases "find ?P (effort_logs ?db)") (auto simp: find_None_iff)
  have "map (\<lambda>e. if ?P e then e\<lparr>e_hours := ec_hours effort\<rparr> else e) (effort_logs ?db)
          = effort_logs ?db"
    using all by (intro map_idI) auto
  then show ?thesis
    by (simp add: upserted_def [of now' effort ?db] log_effort_body_update [OF Some])
qed

section \<open>Sprint creation in closed form\<close>

lemma next_id_snoc: "next_id (ids @ [next_id ids]) = next_id ids + 1"
  by (simp add: next_id_def)

lemma record_ids_Nil [simp]: "record_ids [] m = m"
  by (simp add: record_ids_def)

lemma record_ids_Cons: "record_ids (r # rows) m = record_ids rows (m(h_name r \<mapsto> h_id r))"
  by (simp add: record_ids_def)

lemma insert_habits_eq:
  "insert_habits sid specs ids db =
     (record_ids (new_habits sid (next_id (map h_id (habits db))) specs) ids,
      db\<lparr>habits := habits db @ new_habits sid (next_id (map h_id (habits db))) specs\<rparr>)"
proof (induction specs arbitrary: ids db)
  case Nil
  then show ?case by simp
next
  case (Cons c cs)
  show ?case
    by (simp add: Let_def Cons.IH next_id_snoc record_ids_Cons fun_upd_def)
qed

lemma length_new_habits [simp]: "length (new_habits sid hid specs) = length specs"
  by (induction specs arbitrary: hid) auto

lemma nth_new_habits:
  "k < length specs \<Longrightarrow>
     new_habits sid hid specs ! k =
       \<lparr>h_id = hid + int k, h_sprint_id = sid, h_name = hc_name (specs ! k),
        h_weight = hc_weight (specs ! k), h_target_hours = hc_target_hours (specs ! k)\<rparr>"
proof (induction specs arbitrary: hid k)
  case Nil then show ?case by simp
next
  case (Cons c cs)
  show ?case
  proof (cases k)
    case 0 then show ?thesis by simp
  next
    case (Suc j)
    with Cons.prems have "j < length cs" by simp
    from Cons.IH [OF this, of "hid + 1"] Suc show ?thesis by simp
  qed
qed

lemma record_ids_snoc: "record_ids (rows @ [r]) m = (record_ids rows m)(h_name r \<mapsto> h_id r)"
  by (simp add: record_ids_def)

lemma record_ids_None:
  "record_ids rows m x = None \<longleftrightarrow> m x = None \<and> x \<notin> h_name ` set rows"
  by (induction rows rule: rev_induct) (auto simp: record_ids_snoc)

lemma dom_record_ids: "dom (record_ids rows m) = dom m \<union> h_name ` set rows"
  using record_ids_None [of rows m] by (auto simp: dom_def)

lemma record_ids_last:
  assumes "k < length rows"
    and "\<forall>j. k < j \<and> j < length rows \<longrightarrow> h_name (rows ! j) \<noteq> h_name (rows ! k)"
  shows "record_ids rows m (h_name (rows ! k)) = Some (h_id (rows ! k))"
  using assms
proof (induction rows rule: rev_induct)
  case Nil then show ?case by simp
next
  case (snoc r rs)
  show ?case
  proof (cases "k < length rs")
    case True
    have later: "h_name r \<noteq> h_name (rs ! k)"
      using snoc.prems(2) [rule_format, of "length rs"] True by (simp add: nth_append)
    have "\<forall>j. k < j \<and> j < length rs \<longrightarrow> h_name (rs ! j) \<noteq> h_name (rs ! k)"
    proof (intro allI impI)
      fix j assume j: "k < j \<and> j < length rs"
      then have "k < j \<and> j < length (rs @ [r])" by simp
      from snoc.prems(2) [rule_format, OF this] j True
      show "h_name (rs ! j) \<noteq> h_name (rs ! k)" by (simp add: nth_append)
    qed
    from snoc.IH [OF True this] later True show ?thesis
      by (simp add: record_ids_snoc nth_append)
  next
    case False
    with snoc.prems(1) have "k = length rs" by simp
    then show ?thesis by (simp add: record_ids_snoc)
  qed
qed

section \<open>Sprint deletion in closed form, and the reachable stores\<close>

lemma fold_delete_efforts:
  "fold (\<lambda>habit d. d\<lparr>effort_logs := filter (\<lambda>e. e_habit_id e \<noteq> h_id habit) (effort_logs d)\<rparr>) hs db
     = db\<lparr>effort_logs := filter (\<lambda>e. e_habit_id e \<notin> h_id ` set hs) (effort_logs db)\<rparr>"
proof (induction hs arbitrary: db)
  case Nil then show ?case by simp
next
  case (Cons h hs)
  have "(\<lambda>e. e_habit_id e \<notin> h_id ` set hs \<and> e_habit_id e \<noteq> h_id h)
          = (\<lambda>e. e_habit_id e \<notin> h_id ` set (h # hs))" by auto
  then show ?case by (simp add: Cons.IH)
qed

lemma delete_sprint_body_eq:
  "delete_sprint_body db sid =
     Inr (''Sprint deleted successfully'',
          \<lparr>sprints = filter (\<lambda>s. s_id s \<noteq> sid) (sprints db),
           habits = filter (\<lambda>h. h_sprint_id h \<noteq> sid) (habits db),
           effort_logs = filter (\<lambda>e. e_habit_id e \<notin> h_id ` {h \<in> set (habits db). h_sprint_id h = sid})
                           (effort_logs db)\<rparr>)"
  by (simp add: delete_sprint_body_def Let_def fold_delete_efforts)

lemma create_sprint_body_eq:
  "create_sprint_body now sprint db =
     (let sid = next_id (map s_id (sprints db));
          new = new_habits sid (next_id (map h_id (habits db))) (sc_habits sprint)
      in Inr (\<lparr>sprint_id = sid, habit_ids = record_ids new Map.empty\<rparr>,
              \<lparr>sprints = sprints db @
                 [\<lparr>s_id = sid, s_name = sc_name sprint, s_start_date = sc_start_date sprint,
                   s_end_date = sc_end_date sprint, s_created_at = now\<rparr>],
               habits = habits db @ new, effort_logs = effort_logs db\<rparr>))"
  by (simp add: create_sprint_body_def Let_def insert_habits_eq)

lemma new_habits_sprint: "h \<in> set (new_habits sid hid specs) \<Longrightarrow> h_sprint_id h = sid"
  by (induction specs arbitrary: hid) auto

lemma reachable_habits_owned: "reachable db \<Longrightarrow> habits_owned db"
proof (induction rule: reachable.induct)
  case start
  show ?case by (simp add: habits_owned_def)
next
  case (created db now sprint r db')
  let ?sid = "next_id (map s_id (sprints db))"
  from created.hyps(2)
  have S: "s_id ` set (sprints db') = insert ?sid (s_id ` set (sprints db))"
    and H: "set (habits db') = set (habits db) \<union>
              set (new_habits ?sid (next_id (map h_id (habits db))) (sc_habits sprint))"
    by (auto simp: create_sprint_body_eq Let_def)
  show ?case
    unfolding habits_owned_def S H using created.IH
    by (auto simp: habits_owned_def dest: new_habits_sprint)
next
  case (logged db now effort l db')
  then show ?case
    by (auto simp: habits_owned_def log_effort_body_def Let_def split: option.splits)
next
  case (deleted db sid m db')
  then show ?case
    by (fastforce simp: habits_owned_def delete_sprint_body_eq image_iff)
qed

lemma reachable_at_most_one: "reachable db \<Longrightarrow> at_most_one (effort_logs db)"
proof (induction rule: reachable.induct)
  case start
  show ?case by (simp add: at_most_one_def)
next
  case (created db now sprint r db')
  then show ?case by (auto simp: create_sprint_body_eq Let_def)
next
  case (logged db now effort l db')
  from upserted_at_most_one [OF logged.IH, of now effort] logged.hyps(2)
  show ?case by (simp add: upserted_def)
next
  case (deleted db sid m db')
  then show ?case
    by (auto simp: delete_sprint_body_eq at_most_one_def distinct_map_filter)
qed

section \<open>The scoring loop\<close>

lemma logs_of_day_Cons:
  "logs_of_day start i (x # xs) =
     (if j_date x - start = int i then x # logs_of_day start i xs else logs_of_day start i xs)"
  by (simp add: logs_of_day_def)

lemma daily_scores_skip:
  "\<not> (0 \<le> j_date x - start \<and> j_date x - start < dc) \<Longrightarrow>
     daily_scores start dc (x # xs) days = daily_scores start dc xs days"
  by (auto simp: Let_def)

lemma daily_scores_add:
  "0 \<le> j_date x - start \<Longrightarrow> j_date x - start < dc \<Longrightarrow> j_target_hours x \<noteq> 0 \<Longrightarrow>
     daily_scores start dc (x # xs) days =
       daily_scores start dc xs
         (days[nat (j_date x - start) :=
            Some ((case days ! nat (j_date x - start) of None \<Rightarrow> 0 | Some v \<Rightarrow> v)
                  + contribution x)])"
  by (auto simp: Let_def contribution_def split: option.splits)

lemma daily_scores_raise:
  "0 \<le> j_date x - start \<Longrightarrow> j_date x - start < dc \<Longrightarrow> j_target_hours x = 0 \<Longrightarrow>
     daily_scores start dc (x # xs) days = Inl ZeroDivisionError"
  by (auto simp: Let_def)

lemma daily_scores_slots:
  assumes "daily_scores start dc efforts days = Inr days'" and "length days = nat dc"
  shows "length days' = length days \<and>
         (\<forall>i < length days. days' ! i =
             slot_total (days ! i) (map contribution (logs_of_day start i efforts)))"
  using assms
proof (induction efforts arbitrary: days)
  case Nil
  then show ?case by (simp add: logs_of_day_def slot_total_def)
next
  case (Cons x xs)
  let ?idx = "j_date x - start"
  show ?case
  proof (cases "0 \<le> ?idx \<and> ?idx < dc")
    case False
    have run: "daily_scores start dc xs days = Inr days'"
      using Cons.prems(1) daily_scores_skip [OF False, of xs days] by simp
    have "j_date x - start \<noteq> int i" if "i < length days" for i
      using False that Cons.prems(2) by auto
    then have "logs_of_day start i (x # xs) = logs_of_day start i xs" if "i < length days" for i
      using that by (simp add: logs_of_day_Cons)
    with Cons.IH [OF run Cons.prems(2)] show ?thesis by simp
  next
    case True
    then have k: "nat ?idx < length days" "int (nat ?idx) = ?idx"
      using Cons.prems(2) by auto
    have nz: "j_target_hours x \<noteq> 0"
    proof
      assume "j_target_hours x = 0"
      with True have "daily_scores start dc (x # xs) days = Inl ZeroDivisionError"
        by (intro daily_scores_raise) auto
      with Cons.prems(1) show False by simp
    qed
    define days1 where "days1 =
      days[nat ?idx := Some ((case days ! nat ?idx of None \<Rightarrow> 0 | Some v \<Rightarrow> v) + contribution x)]"
    have run: "daily_scores start dc xs days1 = Inr days'"
      using True nz Cons.prems(1) daily_scores_add [of x start dc xs days]
      by (simp add: days1_def)
    have len: "length days1 = nat dc" using Cons.prems(2) by (simp add: days1_def)
    from Cons.IH [OF run len]
    have IH: "length days' = length days1"
      "\<And>i. i < length days1 \<Longrightarrow>
         days' ! i = slot_total (days1 ! i) (map contribution (logs_of_day start i xs))"
      by auto
    have "days' ! i = slot_total (days ! i) (map contribution (logs_of_day start i (x # xs)))"
      if i: "i < length days" for i
    proof (cases "i = nat ?idx")
      case True
      then have here: "j_date x - start = int i" using k by simp
      have "days1 ! i = Some ((case days ! i of None \<Rightarrow> 0 | Some v \<Rightarrow> v) + contribution x)"
        using True i by (simp add: days1_def)
      then have "slot_total (days1 ! i) ss = slot_total (days ! i) (contribution x # ss)" for ss
        by (cases "days ! i") (simp_all add: slot_total_def)
      with IH(2) [of i] i here show ?thesis
        by (simp add: logs_of_day_Cons days1_def)
    next
      case False
      then have "j_date x - start \<noteq> int i" using k by auto
      moreover have "days1 ! i = days ! i" using False by (simp add: days1_def)
      ultimately show ?thesis using IH(2) [of i] i
        by (simp add: logs_of_day_Cons days1_def)
    qed
    with IH(1) show ?thesis by (simp add: days1_def)
  qed
qed

lemma daily_scores_in_range:
  "daily_scores start dc efforts days =
     daily_scores start dc (filter (\<lambda>e. 0 \<le> j_date e - start \<and> j_date e - start < dc) efforts) days"
  by (induction efforts arbitrary: days) (auto simp: Let_def split: option.splits)

lemma daily_scores_succeeds:
  assumes "\<forall>e \<in> set efforts. 0 \<le> j_date e - start \<and> j_date e - start < dc \<longrightarrow> j_target_hours e \<noteq> 0"
  shows "\<exists>days'. daily_scores start dc efforts days = Inr days'"
  using assms by (induction efforts arbitrary: days) (auto simp: Let_def split: option.splits)

lemma fetch_efforts_filter:
  "fetch_efforts (db\<lparr>effort_logs := filter (\<lambda>l. P (e_date l)) (effort_logs db)\<rparr>) sid
     = filter (\<lambda>e. P (j_date e)) (fetch_efforts db sid)"
proof -
  have "concat (map (\<lambda>e. concat (map (\<lambda>h. if e_habit_id e = h_id h \<and> h_sprint_id h = sid
            then [\<lparr>j_date = e_date e, j_hours = e_hours e, j_habit_id = e_habit_id e,
                   j_weight = h_weight h, j_target_hours = h_target_hours h\<rparr>] else []) hs))
          (filter (\<lambda>l. P (e_date l)) ls))
      = filter (\<lambda>e. P (j_date e))
          (concat (map (\<lambda>e. concat (map (\<lambda>h. if e_habit_id e = h_id h \<and> h_sprint_id h = sid
            then [\<lparr>j_date = e_date e, j_hours = e_hours e, j_habit_id = e_habit_id e,
                   j_weight = h_weight h, j_target_hours = h_target_hours h\<rparr>] else []) hs)) ls))"
    for ls :: "effort_row list" and hs :: "habit_row list"
  proof (induction ls)
    case Nil then show ?case by simp
  next
    case (Cons l ls)
    have "filter (\<lambda>e. P (j_date e)) (concat (map (\<lambda>h. if e_habit_id l = h_id h \<and> h_sprint_id h = sid
            then [\<lparr>j_date = e_date l, j_hours = e_hours l, j_habit_id = e_habit_id l,
                   j_weight = h_weight h, j_target_hours = h_target_hours h\<rparr>] else []) hs))
       = (if P (e_date l) then concat (map (\<lambda>h. if e_habit_id l = h_id h \<and> h_sprint_id h = sid
            then [\<lparr>j_date = e_date l, j_hours = e_hours l, j_habit_id = e_habit_id l,
                   j_weight = h_weight h, j_target_hours = h_target_hours h\<rparr>] else []) hs) else [])"
      by (induction hs) auto
    with Cons show ?case by simp
  qed
  then show ?thesis by (simp add: fetch_efforts_def)
qed

section \<open>Sprint retrieval\<close>

lemma except_Exception_Inr [simp]: "except_Exception str x = Inr r \<longleftrightarrow> x = Inr r"
  by (cases x) (simp_all add: except_Exception_def)

lemma get_sprint_Inr:
  assumes "get_sprint str db sid = Inr r"
  shows "\<exists>sprint. find (\<lambda>s. s_id s = sid) (sprints db) = Some sprint \<and>
           r_id r = s_id sprint \<and> r_name r = s_name sprint \<and>
           r_start_date r = s_start_date sprint \<and> r_end_date r = s_end_date sprint \<and>
           r_habits r = filter (\<lambda>h. h_sprint_id h = sid) (habits db) \<and>
           daily_scores (r_start_date r) (r_end_date r - r_start_date r + 1)
             (fetch_efforts db sid) (replicate (nat (r_end_date r - r_start_date r + 1)) None)
             = Inr (r_days r)"
  using assms
  by (auto simp: get_sprint_def get_sprint_body_def Let_def split: option.splits sum.splits)

lemma get_sprint_slots:
  assumes "get_sprint str db sid = Inr r"
  shows "length (r_days r) = nat (r_end_date r - r_start_date r + 1)"
    and "i < length (r_days r) \<Longrightarrow>
           r_days r ! i = slot_total None
              (map contribution (logs_of_day (r_start_date r) i (fetch_efforts db sid)))"
proof -
  let ?dc = "r_end_date r - r_start_date r + 1"
  from get_sprint_Inr [OF assms]
  have run: "daily_scores (r_start_date r) ?dc (fetch_efforts db sid) (replicate (nat ?dc) None)
               = Inr (r_days r)" by blast
  from daily_scores_slots [OF run]
  have *: "length (r_days r) = nat ?dc"
    "\<And>i. i < nat ?dc \<Longrightarrow> r_days r ! i =
        slot_total (replicate (nat ?dc) None ! i)
          (map contribution (logs_of_day (r_start_date r) i (fetch_efforts db sid)))"
    by auto
  show "length (r_days r) = nat ?dc" by (rule *(1))
  show "r_days r ! i = slot_total None
              (map contribution (logs_of_day (r_start_date r) i (fetch_efforts db sid)))"
    if "i < length (r_days r)"
    using *(2) [of i] that *(1) by simp
qed

lemma get_sprint_no_zero_target:
  assumes "get_sprint str db sid = Inr r" and "i < length (r_days r)"
    and "e \<in> set (fetch_efforts db sid)" and "j_date e - r_start_date r = int i"
  shows "j_target_hours e \<noteq> 0"
proof
  assume z: "j_target_hours e = 0"
  let ?dc = "r_end_date r - r_start_date r + 1"
  have len: "length (r_days r) = nat ?dc" by (rule get_sprint_slots(1) [OF assms(1)])
  have "daily_scores (r_start_date r) ?dc (fetch_efforts db sid) (replicate (nat ?dc) None)
          = Inl ZeroDivisionError"
    by (rule daily_scores_zero_target [OF assms(3) z]) (use assms(2,4) len in auto)
  with get_sprint_Inr [OF assms(1)] show False by auto
qed

lemma get_sprint_Inr_scores:
  assumes "get_sprint str db sid = Inr r" and "i < length (r_days r)"
  shows "(let logs = filter (\<lambda>e. j_date e - r_start_date r = int i) (fetch_efforts db sid) in
           (\<forall>e \<in> set logs. j_target_hours e \<noteq> 0) \<and>
           r_days r ! i =
             (if logs = [] then None
              else Some (\<Sum>e\<leftarrow>logs. min (j_hours e / j_target_hours e) 1 * j_weight e)) \<and>
           ((\<forall>e \<in> set logs. 0 < j_target_hours e \<and> j_target_hours e \<le> j_hours e) \<longrightarrow>
              r_days r ! i = (if logs = [] then None else Some (\<Sum>e\<leftarrow>logs. j_weight e))))"
proof -
  define logs where "logs = filter (\<lambda>e. j_date e - r_start_date r = int i) (fetch_efforts db sid)"
  have nz: "\<forall>e \<in> set logs. j_target_hours e \<noteq> 0"
    using get_sprint_no_zero_target [OF assms] by (auto simp: logs_def)
  have slot: "r_days r ! i =
      (if logs = [] then None
       else Some (\<Sum>e\<leftarrow>logs. min (j_hours e / j_target_hours e) 1 * j_weight e))"
    using get_sprint_slots(2) [OF assms]
    by (simp add: slot_total_def logs_of_day_def logs_def contribution_def [abs_def])
  have capped: "r_days r ! i = (if logs = [] then None else Some (\<Sum>e\<leftarrow>logs. j_weight e))"
    if full: "\<forall>e \<in> set logs. 0 < j_target_hours e \<and> j_target_hours e \<le> j_hours e"
  proof -
    have "min (j_hours e / j_target_hours e) 1 * j_weight e = j_weight e" if "e \<in> set logs" for e
    proof -
      from full that have "0 < j_target_hours e" "j_target_hours e \<le> j_hours e" by auto
      then have "1 \<le> j_hours e / j_target_hours e" by (simp add: le_divide_eq)
      then show ?thesis by (simp add: min_def)
    qed
    then have "map (\<lambda>e. min (j_hours e / j_target_hours e) 1 * j_weight e) logs = map j_weight logs"
      by (intro map_cong) auto
    then have "(\<Sum>e\<leftarrow>logs. min (j_hours e / j_target_hours e) 1 * j_weight e)
                 = (\<Sum>e\<leftarrow>logs. j_weight e)"
      by (rule arg_cong)
    then show ?thesis unfolding slot by (simp only:)
  qed
  from nz slot capped show ?thesis
    unfolding logs_def [symmetric] Let_def by blast
qed

lemma get_sprint_Inr_days:
  assumes "get_sprint str db sid = Inr r"
  shows "length (r_days r) = nat (r_end_date r - r_start_date r + 1) \<and>
         (r_start_date r \<le> r_end_date r \<longrightarrow>
            int (length (r_days r)) = r_end_date r - r_start_date r + 1) \<and>
         get_sprint str
           (db\<lparr>effort_logs := filter (\<lambda>l. r_start_date r \<le> e_date l \<and> e_date l \<le> r_end_date r)
                                 (effort_logs db)\<rparr>) sid = Inr r \<and>
         (\<forall>i < length (r_days r).
            (r_days r ! i = None) =
            (\<forall>e \<in> set (fetch_efforts db sid). j_date e - r_start_date r \<noteq> int i))"
proof -
  let ?start = "r_start_date r" and ?dc = "r_end_date r - r_start_date r + 1"
  let ?P = "\<lambda>d. r_start_date r \<le> d \<and> d \<le> r_end_date r"
  let ?db = "db\<lparr>effort_logs := filter (\<lambda>l. ?P (e_date l)) (effort_logs db)\<rparr>"
  have len: "length (r_days r) = nat ?dc" by (rule get_sprint_slots(1) [OF assms])
  from get_sprint_Inr [OF assms] obtain sprint where
    found: "find (\<lambda>s. s_id s = sid) (sprints db) = Some sprint" and
    fields: "r_id r = s_id sprint" "r_name r = s_name sprint"
      "r_start_date r = s_start_date sprint" "r_end_date r = s_end_date sprint"
      "r_habits r = filter (\<lambda>h. h_sprint_id h = sid) (habits db)" and
    run: "daily_scores ?start ?dc (fetch_efforts db sid) (replicate (nat ?dc) None) = Inr (r_days r)"
    by blast
  have same: "(\<lambda>e. ?P (j_date e)) = (\<lambda>e. 0 \<le> j_date e - ?start \<and> j_date e - ?start < ?dc)"
    by (auto simp: fun_eq_iff)
  have "fetch_efforts ?db sid = filter (\<lambda>e. ?P (j_date e)) (fetch_efforts db sid)"
    using fetch_efforts_filter [of ?P db sid] by simp
  then have "daily_scores ?start ?dc (fetch_efforts ?db sid) (replicate (nat ?dc) None)
               = Inr (r_days r)"
    unfolding same
    using run daily_scores_in_range [of ?start ?dc "fetch_efforts db sid"] by simp
  then have ignored: "get_sprint str ?db sid = Inr r"
    using found fields
    by (simp add: get_sprint_def get_sprint_body_def Let_def)
  have unset: "(r_days r ! i = None) =
      (\<forall>e \<in> set (fetch_efforts db sid). j_date e - ?start \<noteq> int i)" if "i < length (r_days r)" for i
    using get_sprint_slots(2) [OF assms that]
    by (auto simp: slot_total_def logs_of_day_def filter_empty_conv)
  from len ignored unset show ?thesis by auto
qed

lemma get_sprint_succeeds:
  assumes "find (\<lambda>s. s_id s = sid) (sprints db) = Some sprint"
    and "\<forall>e \<in> set (fetch_efforts db sid).
           s_start_date sprint \<le> j_date e \<and> j_date e \<le> s_end_date sprint \<longrightarrow>
           j_target_hours e \<noteq> 0"
  shows "\<exists>r. get_sprint str db sid = Inr r \<and> r_id r = s_id sprint \<and> r_name r = s_name sprint \<and>
           r_start_date r = s_start_date sprint \<and> r_end_date r = s_end_date sprint \<and>
           r_habits r = filter (\<lambda>h. h_sprint_id h = sid) (habits db)"
proof -
  let ?start = "s_start_date sprint" and ?dc = "s_end_date sprint - s_start_date sprint + 1"
  have "\<forall>e \<in> set (fetch_efforts db sid).
          0 \<le> j_date e - ?start \<and> j_date e - ?start < ?dc \<longrightarrow> j_target_hours e \<noteq> 0"
    using assms(2) by auto
  from daily_scores_succeeds [OF this] obtain days' where
    "daily_scores ?start ?dc (fetch_efforts db sid) (replicate (nat ?dc) None) = Inr days'"
    by blast
  then show ?thesis
    using assms(1) by (simp add: get_sprint_def get_sprint_body_def Let_def except_Exception_def)
qed

lemma get_sprint_raises:
  assumes "find (\<lambda>s. s_id s = sid) (sprints db) = Some sprint"
    and "e \<in> set (fetch_efforts db sid)" and "j_target_hours e = 0"
    and "s_start_date sprint \<le> j_date e" and "j_date e \<le> s_end_date sprint"
  shows "get_sprint str db sid = Inl (HTTPException 500 (str ZeroDivisionError))"
proof -
  have "daily_scores (s_start_date sprint) (s_end_date sprint - s_start_date sprint + 1)
          (fetch_efforts db sid) days = Inl ZeroDivisionError" for days
    by (rule daily_scores_zero_target [OF assms(2,3)]) (use assms(4,5) in auto)
  then show ?thesis
    using assms(1) by (simp add: get_sprint_def get_sprint_body_def Let_def except_Exception_def)
qed

lemma get_sprint_filtered:
  assumes "find (\<lambda>s. s_id s = sid) (sprints db) = Some sprint"
  shows "get_sprint str
           (db\<lparr>effort_logs :=
                 filter (\<lambda>l. s_start_date sprint \<le> e_date l \<and> e_date l \<le> s_end_date sprint)
                   (effort_logs db)\<rparr>) sid = get_sprint str db sid"
proof -
  let ?start = "s_start_date sprint" and ?dc = "s_end_date sprint - s_start_date sprint + 1"
  let ?P = "\<lambda>d. s_start_date sprint \<le> d \<and> d \<le> s_end_date sprint"
  let ?db = "db\<lparr>effort_logs := filter (\<lambda>l. ?P (e_date l)) (effort_logs db)\<rparr>"
  have same: "(\<lambda>e. ?P (j_date e)) = (\<lambda>e. 0 \<le> j_date e - ?start \<and> j_date e - ?start < ?dc)"
    by (auto simp: fun_eq_iff)
  have "fetch_efforts ?db sid = filter (\<lambda>e. ?P (j_date e)) (fetch_efforts db sid)"
    using fetch_efforts_filter [of ?P db sid] by simp
  then have "daily_scores ?start ?dc (fetch_efforts ?db sid) days
               = daily_scores ?start ?dc (fetch_efforts db sid) days" for days
    unfolding same
    using daily_scores_in_range [of ?start ?dc "fetch_efforts db sid" days] by simp
  then show ?thesis
    using assms by (simp add: get_sprint_def get_sprint_body_def Let_def)
qed

text \<open>
  C1, amended. Retrieval of an existing sprint succeeds whenever no joined effort row
  dated within the sprint's range has target 0, and then \<open>days\<close> has
  \<open>max 0 ((end_date - start_date).days + 1)\<close> slots and, for every slot \<open>i\<close> and the
  joined effort rows whose day index is \<open>i\<close>: the slot is unset when there is no such
  row and otherwise holds exactly the sum, over these rows, of
  \<open>min (hours / target_hours) 1 * weight\<close> (several logs on one day add up); and when
  every one of these rows has \<open>0 < target_hours \<le> hours\<close>, the slot holds exactly the
  sum of their weights (a log at or above a positive target contributes its habit's
  full weight, no more). The target must be positive for that: see the counterexample.
\<close>

theorem get_sprint_scores:
  assumes "find (\<lambda>s. s_id s = sid) (sprints db) = Some sprint"
    and "\<forall>e \<in> set (fetch_efforts db sid).
           s_start_date sprint \<le> j_date e \<and> j_date e \<le> s_end_date sprint \<longrightarrow>
           j_target_hours e \<noteq> 0"
  shows "\<exists>r. get_sprint str db sid = Inr r \<and>
           length (r_days r) = nat (s_end_date sprint - s_start_date sprint + 1) \<and>
           (\<forall>i < length (r_days r).
              (let logs = filter (\<lambda>e. j_date e - s_start_date sprint = int i)
                            (fetch_efforts db sid) in
               r_days r ! i =
                 (if logs = [] then None
                  else Some (\<Sum>e\<leftarrow>logs. min (j_hours e / j_target_hours e) 1 * j_weight e)) \<and>
               ((\<forall>e \<in> set logs. 0 < j_target_hours e \<and> j_target_hours e \<le> j_hours e) \<longrightarrow>
                  r_days r ! i = (if logs = [] then None else Some (\<Sum>e\<leftarrow>logs. j_weight e)))))"
proof -
  from get_sprint_succeeds [OF assms, of str] obtain r where
    run: "get_sprint str db sid = Inr r" and
    dates: "r_start_date r = s_start_date sprint" "r_end_date r = s_end_date sprint"
    by blast
  have len: "length (r_days r) = nat (s_end_date sprint - s_start_date sprint + 1)"
    using get_sprint_slots(1) [OF run] dates by simp
  have slots: "\<forall>i < length (r_days r).
              (let logs = filter (\<lambda>e. j_date e - s_start_date sprint = int i)
                            (fetch_efforts db sid) in
               r_days r ! i =
                 (if logs = [] then None
                  else Some (\<Sum>e\<leftarrow>logs. min (j_hours e / j_target_hours e) 1 * j_weight e)) \<and>
               ((\<forall>e \<in> set logs. 0 < j_target_hours e \<and> j_target_hours e \<le> j_hours e) \<longrightarrow>
                  r_days r ! i = (if logs = [] then None else Some (\<Sum>e\<leftarrow>logs. j_weight e))))"
  proof (intro allI impI)
    fix i assume "i < length (r_days r)"
    from get_sprint_Inr_scores [OF run this]
    show "let logs = filter (\<lambda>e. j_date e - s_start_date sprint = int i)
                            (fetch_efforts db sid) in
               r_days r ! i =
                 (if logs = [] then None
                  else Some (\<Sum>e\<leftarrow>logs. min (j_hours e / j_target_hours e) 1 * j_weight e)) \<and>
               ((\<forall>e \<in> set logs. 0 < j_target_hours e \<and> j_target_hours e \<le> j_hours e) \<longrightarrow>
                  r_days r ! i = (if logs = [] then None else Some (\<Sum>e\<leftarrow>logs. j_weight e)))"
      unfolding dates Let_def by blast
  qed
  from run len slots show ?thesis by blast
qed

text \<open>
  C2, amended. For every existing sprint, retrieval from the store without the effort
  logs dated outside the sprint's range gives the same result, success or failure, as
  retrieval from the store itself: such logs are ignored, whatever their habit's target.
  The retrieval fails (status 500, division by zero) exactly when a joined effort row
  dated within the range has target 0. Otherwise it succeeds, \<open>days\<close> has
  \<open>max 0 ((end_date - start_date).days + 1)\<close> slots, which is
  \<open>(end_date - start_date).days + 1\<close> whenever the end date is not before the start
  date, and a slot is unset exactly when no joined effort row has its day index.
\<close>

theorem get_sprint_days:
  assumes "find (\<lambda>s. s_id s = sid) (sprints db) = Some sprint"
  shows "get_sprint str
           (db\<lparr>effort_logs :=
                 filter (\<lambda>l. s_start_date sprint \<le> e_date l \<and> e_date l \<le> s_end_date sprint)
                   (effort_logs db)\<rparr>) sid = get_sprint str db sid \<and>
         ((\<exists>e \<in> set (fetch_efforts db sid).
             s_start_date sprint \<le> j_date e \<and> j_date e \<le> s_end_date sprint \<and>
             j_target_hours e = 0) \<longrightarrow>
            get_sprint str db sid = Inl (HTTPException 500 (str ZeroDivisionError))) \<and>
         (\<not> (\<exists>e \<in> set (fetch_efforts db sid).
             s_start_date sprint \<le> j_date e \<and> j_date e \<le> s_end_date sprint \<and>
             j_target_hours e = 0) \<longrightarrow>
            (\<exists>r. get_sprint str db sid = Inr r \<and>
               length (r_days r) = nat (s_end_date sprint - s_start_date sprint + 1) \<and>
               (s_start_date sprint \<le> s_end_date sprint \<longrightarrow>
                  int (length (r_days r)) = s_end_date sprint - s_start_date sprint + 1) \<and>
               (\<forall>i < length (r_days r).
                  (r_days r ! i = None) =
                  (\<forall>e \<in> set (fetch_efforts db sid). j_date e - s_start_date sprint \<noteq> int i))))"
proof -
  let ?zero = "\<exists>e \<in> set (fetch_efforts db sid).
             s_start_date sprint \<le> j_date e \<and> j_date e \<le> s_end_date sprint \<and>
             j_target_hours e = 0"
  have ignored: "get_sprint str
           (db\<lparr>effort_logs :=
                 filter (\<lambda>l. s_start_date sprint \<le> e_date l \<and> e_date l \<le> s_end_date sprint)
                   (effort_logs db)\<rparr>) sid = get_sprint str db sid"
    by (rule get_sprint_filtered [OF assms])
  have fails: "get_sprint str db sid = Inl (HTTPException 500 (str ZeroDivisionError))" if ?zero
    using that get_sprint_raises [OF assms, of _ str] by blast
  have works: "\<exists>r. get_sprint str db sid = Inr r \<and>
               length (r_days r) = nat (s_end_date sprint - s_start_date sprint + 1) \<and>
               (s_start_date sprint \<le> s_end_date sprint \<longrightarrow>
                  int (length (r_days r)) = s_end_date sprint - s_start_date sprint + 1) \<and>
               (\<forall>i < length (r_days r).
                  (r_days r ! i = None) =
                  (\<forall>e \<in> set (fetch_efforts db sid). j_date e - s_start_date sprint \<noteq> int i))"
    if "\<not> ?zero"
  proof -
    from that have "\<forall>e \<in> set (fetch_efforts db sid).
           s_start_date sprint \<le> j_date e \<and> j_date e \<le> s_end_date sprint \<longrightarrow>
           j_target_hours e \<noteq> 0" by blast
    from get_sprint_succeeds [OF assms this, of str] obtain r where
      run: "get_sprint str db sid = Inr r" and
      dates: "r_start_date r = s_start_date sprint" "r_end_date r = s_end_date sprint"
      by blast
    from get_sprint_Inr_days [OF run] dates
    have "length (r_days r) = nat (s_end_date sprint - s_start_date sprint + 1)"
      and "s_start_date sprint \<le> s_end_date sprint \<longrightarrow>
                  int (length (r_days r)) = s_end_date sprint - s_start_date sprint + 1"
      and "\<forall>i < length (r_days r).
                  (r_days r ! i = None) =
                  (\<forall>e \<in> set (fetch_efforts db sid). j_date e - s_start_date sprint \<noteq> int i)"
      by simp_all
    with run show ?thesis by blast
  qed
  from ignored fails works show ?thesis by blast
qed

text \<open>
  C10, amended. For a sprint that exists and owns no habit, \<open>get_sprint\<close> succeeds with
  the sprint's fields, an empty habits list and \<open>max 0 ((end_date - start_date).days + 1)\<close>
  slots, all unset; \<open>get_daily_efforts\<close> for the same identity raises the not-found
  exception (status 404), which reaches the caller as the generic failure (status 500).
  The two read operations disagree on whether a sprint without habits is an error.
\<close>

theorem habitless_sprint:
  assumes "find (\<lambda>s. s_id s = sid) (sprints db) = Some sprint"
    and "\<forall>h \<in> set (habits db). h_sprint_id h \<noteq> sid"
  shows "get_sprint str db sid =
           Inr \<lparr>r_id = s_id sprint, r_name = s_name sprint, r_start_date = s_start_date sprint,
                r_end_date = s_end_date sprint, r_habits = [],
                r_days = replicate (nat (s_end_date sprint - s_start_date sprint + 1)) None\<rparr> \<and>
         get_daily_efforts_body db sid d =
           Inl (HTTPException 404 ''Sprint not found or has no habits'') \<and>
         get_daily_efforts str db sid d =
           Inl (HTTPException 500 (str (HTTPException 404 ''Sprint not found or has no habits'')))"
proof -
  have none: "filter (\<lambda>h. h_sprint_id h = sid) (habits db) = []"
    using assms(2) by (simp add: filter_empty_conv)
  have "concat (map (\<lambda>h. if e_habit_id e = h_id h \<and> h_sprint_id h = sid then [f e h] else []) hs) = []"
    if "\<forall>h \<in> set hs. h_sprint_id h \<noteq> sid" for e :: effort_row and hs :: "habit_row list"
      and f :: "effort_row \<Rightarrow> habit_row \<Rightarrow> effort_join"
    using that by (induction hs) auto
  then have "fetch_efforts db sid = []"
    using assms(2) by (simp add: fetch_efforts_def)
  then show ?thesis
    using assms(1) none
    by (simp add: get_sprint_def get_sprint_body_def get_daily_efforts_def
        get_daily_efforts_body_def except_Exception_def Let_def)
qed

section \<open>Effort upsert\<close>

lemma log_effort_eq [simp]: "log_effort str now effort db = log_effort_body now effort db"
  by (auto simp: log_effort_def log_effort_body_def except_Exception_def Let_def split: option.split)

text \<open>
  C3. From a store with at most one effort row per (habit, date) pair, two upserts
  for the same pair, run one after the other, both succeed, and each leaves at most
  one row per pair. After the first there is exactly one row for the pair, with the
  first hours; after the second there is exactly one row for the pair, the same row
  (same identity), with the second hours. With hours 3 then 5 that row has 5; with the
  same hours twice the second upsert leaves the store as the first left it.
\<close>

theorem upsert_one_row:
  assumes "at_most_one (effort_logs db)"
  shows "\<exists>r1 db1 row1 r2 db2 row2.
     log_effort str t1 \<lparr>ec_habit_id = hid, ec_date = d, ec_hours = x\<rparr> db = Inr (r1, db1) \<and>
     at_most_one (effort_logs db1) \<and>
     filter (\<lambda>e. e_habit_id e = hid \<and> e_date e = d) (effort_logs db1) = [row1] \<and>
     e_hours row1 = x \<and>
     log_effort str t2 \<lparr>ec_habit_id = hid, ec_date = d, ec_hours = y\<rparr> db1 = Inr (r2, db2) \<and>
     at_most_one (effort_logs db2) \<and>
     filter (\<lambda>e. e_habit_id e = hid \<and> e_date e = d) (effort_logs db2) = [row2] \<and>
     e_hours row2 = y \<and> e_id row2 = e_id row1 \<and>
     (y = x \<longrightarrow> db2 = db1)"
proof -
  let ?e1 = "\<lparr>ec_habit_id = hid, ec_date = d, ec_hours = x\<rparr>"
  let ?e2 = "\<lparr>ec_habit_id = hid, ec_date = d, ec_hours = y\<rparr>"
  let ?P = "\<lambda>e. e_habit_id e = hid \<and> e_date e = d"
  define db1 where "db1 = upserted t1 ?e1 db"
  define db2 where "db2 = upserted t2 ?e2 db1"
  obtain r1 where r1: "log_effort_body t1 ?e1 db = Inr (r1, db1)"
    using log_effort_body_total [of t1 ?e1 db] by (auto simp: db1_def)
  obtain r2 where r2: "log_effort_body t2 ?e2 db1 = Inr (r2, db2)"
    using log_effort_body_total [of t2 ?e2 db1] by (auto simp: db2_def)
  have a1: "at_most_one (effort_logs db1)"
    unfolding db1_def by (rule upserted_at_most_one [OF assms])
  have a2: "at_most_one (effort_logs db2)"
    unfolding db2_def by (rule upserted_at_most_one [OF a1])
  obtain row1 where row1: "filter ?P (effort_logs db1) = [row1]" "e_hours row1 = x"
    using upserted_rows [OF assms, of ?e1 t1] by (auto simp: db1_def)
  have "row1 \<in> set (filter ?P (effort_logs db1))" using row1 by simp
  then have ex: "\<exists>e \<in> set (effort_logs db1). ?P e" by auto
  then obtain ex where Some: "find ?P (effort_logs db1) = Some ex"
    by (cases "find ?P (effort_logs db1)") (auto simp: find_None_iff)
  have db2_eq: "db2 = db1\<lparr>effort_logs :=
      map (\<lambda>e. if ?P e then e\<lparr>e_hours := y\<rparr> else e) (effort_logs db1)\<rparr>"
    using log_effort_body_update [of ?e2 db1 ex t2] Some by (simp add: db2_def upserted_def)
  have fm: "filter ?P (map (\<lambda>e. if ?P e then e\<lparr>e_hours := y\<rparr> else e) logs)
          = map (\<lambda>e. e\<lparr>e_hours := y\<rparr>) (filter ?P logs)" for logs
    by (induction logs) auto
  have "effort_logs db2 = map (\<lambda>e. if ?P e then e\<lparr>e_hours := y\<rparr> else e) (effort_logs db1)"
    by (simp add: db2_eq)
  then have row2: "filter ?P (effort_logs db2) = [row1\<lparr>e_hours := y\<rparr>]"
    by (simp only: fm row1 list.map)
  have same: "db2 = db1" if "y = x"
    using upserted_again [OF assms, of t2 ?e1 t1] that by (simp add: db2_def db1_def)
  from r1 r2 a1 a2 row1 row2 same show ?thesis
    by (intro exI [of _ r1] exI [of _ db1] exI [of _ row1] exI [of _ r2] exI [of _ db2]
        exI [of _ "row1\<lparr>e_hours := y\<rparr>"]) simp
qed

text \<open>
  C4. If the effort table has a row for (habit_id, date), \<open>log_effort\<close> answers with
  the confirmation message, which carries no identity; the table keeps its length, the
  rows for that pair have their hours replaced and every other field of every row,
  identity and creation timestamp included, is as before. If it has none,
  \<open>log_effort\<close> answers with the identity of a new row, which no existing row has, and
  that row is appended with the submitted fields. In both cases the sprint and habit
  tables are untouched, and the handler succeeds for every request: neither the sign of
  the hours nor the existence of the habit is checked.
\<close>

theorem log_effort_upsert:
  "((\<exists>e \<in> set (effort_logs db). e_habit_id e = ec_habit_id effort \<and> e_date e = ec_date effort) \<longrightarrow>
      (\<exists>db'. log_effort str now effort db = Inr (Message ''Effort updated successfully'', db') \<and>
         sprints db' = sprints db \<and> habits db' = habits db \<and>
         length (effort_logs db') = length (effort_logs db) \<and>
         (\<forall>k < length (effort_logs db).
            effort_logs db' ! k =
              (if e_habit_id (effort_logs db ! k) = ec_habit_id effort \<and>
                  e_date (effort_logs db ! k) = ec_date effort
               then (effort_logs db ! k)\<lparr>e_hours := ec_hours effort\<rparr>
               else effort_logs db ! k)) \<and>
         map e_id (effort_logs db') = map e_id (effort_logs db) \<and>
         map e_created_at (effort_logs db') = map e_created_at (effort_logs db))) \<and>
   (\<not> (\<exists>e \<in> set (effort_logs db). e_habit_id e = ec_habit_id effort \<and> e_date e = ec_date effort) \<longrightarrow>
      (\<exists>db'. log_effort str now effort db = Inr (Effort_id (next_id (map e_id (effort_logs db))), db') \<and>
         sprints db' = sprints db \<and> habits db' = habits db \<and>
         effort_logs db' = effort_logs db @
           [\<lparr>e_id = next_id (map e_id (effort_logs db)), e_habit_id = ec_habit_id effort,
             e_date = ec_date effort, e_hours = ec_hours effort, e_created_at = now\<rparr>] \<and>
         next_id (map e_id (effort_logs db)) \<notin> e_id ` set (effort_logs db))) \<and>
   (\<exists>res db'. log_effort str now effort db = Inr (res, db'))"
proof -
  let ?P = "\<lambda>e. e_habit_id e = ec_habit_id effort \<and> e_date e = ec_date effort"
  let ?logs' = "map (\<lambda>e. if ?P e then e\<lparr>e_hours := ec_hours effort\<rparr> else e) (effort_logs db)"
  have upd: "\<exists>db'. log_effort str now effort db = Inr (Message ''Effort updated successfully'', db') \<and>
         sprints db' = sprints db \<and> habits db' = habits db \<and>
         length (effort_logs db') = length (effort_logs db) \<and>
         (\<forall>k < length (effort_logs db).
            effort_logs db' ! k =
              (if ?P (effort_logs db ! k)
               then (effort_logs db ! k)\<lparr>e_hours := ec_hours effort\<rparr>
               else effort_logs db ! k)) \<and>
         map e_id (effort_logs db') = map e_id (effort_logs db) \<and>
         map e_created_at (effort_logs db') = map e_created_at (effort_logs db)"
    if "\<exists>e \<in> set (effort_logs db). ?P e"
  proof -
    from that obtain ex where Some: "find ?P (effort_logs db) = Some ex"
      by (cases "find ?P (effort_logs db)") (auto simp: find_None_iff)
    have ids: "map e_id ?logs' = map e_id (effort_logs db)"
      by (induction "effort_logs db") (auto simp: comp_def)
    have ts: "map e_created_at ?logs' = map e_created_at (effort_logs db)"
      by (auto simp: comp_def)
    show ?thesis
      using log_effort_body_update [OF Some, of now] ids ts
      by (intro exI [of _ "db\<lparr>effort_logs := ?logs'\<rparr>"]) simp
  qed
  have ins: "\<exists>db'. log_effort str now effort db = Inr (Effort_id (next_id (map e_id (effort_logs db))), db') \<and>
         sprints db' = sprints db \<and> habits db' = habits db \<and>
         effort_logs db' = effort_logs db @
           [\<lparr>e_id = next_id (map e_id (effort_logs db)), e_habit_id = ec_habit_id effort,
             e_date = ec_date effort, e_hours = ec_hours effort, e_created_at = now\<rparr>] \<and>
         next_id (map e_id (effort_logs db)) \<notin> e_id ` set (effort_logs db)"
    if "\<not> (\<exists>e \<in> set (effort_logs db). ?P e)"
  proof -
    from that have None: "find ?P (effort_logs db) = None" by (auto simp: find_None_iff)
    show ?thesis
      using log_effort_body_insert [OF None, of now] next_id_fresh [of "map e_id (effort_logs db)"]
      by simp
  qed
  have total: "\<exists>res db'. log_effort str now effort db = Inr (res, db')"
    using log_effort_body_total [of now effort db] by auto
  from upd ins total show ?thesis by blast
qed

section \<open>Daily effort listing, sprint creation, sprint deletion\<close>

lemma get_sprint_missing:
  assumes "sid \<notin> s_id ` set (sprints db)"
  shows "get_sprint_body db sid = Inl (HTTPException 404 ''Sprint not found'')"
    and "get_sprint str db sid =
           Inl (HTTPException 500 (str (HTTPException 404 ''Sprint not found'')))"
proof -
  have "find (\<lambda>s. s_id s = sid) (sprints db) = None"
    using assms by (auto simp: find_None_iff)
  then show "get_sprint_body db sid = Inl (HTTPException 404 ''Sprint not found'')"
    by (simp add: get_sprint_body_def)
  then show "get_sprint str db sid =
           Inl (HTTPException 500 (str (HTTPException 404 ''Sprint not found'')))"
    by (simp add: get_sprint_def except_Exception_def)
qed

lemma find_filter_hd:
  "find P xs = (case filter P xs of [] \<Rightarrow> None | x # _ \<Rightarrow> Some x)"
  by (induction xs) auto

text \<open>
  C7. If the sprint has no habit, the body of \<open>get_daily_efforts\<close> raises the not-found
  exception (status 404), which reaches the caller as the generic failure with its
  message. Otherwise the handler returns one entry per habit of the sprint, in the order
  the habits were fetched, with the habit's identity and name; its hours are the number
  0 when the habit has no effort row for the date and the hours of the (first) such row
  when it has, which is the hours of every such row when the table has at most one row
  per (habit, date) pair.
\<close>

theorem get_daily_efforts_listing:
  "(filter (\<lambda>h. h_sprint_id h = sid) (habits db) = [] \<longrightarrow>
      get_daily_efforts_body db sid d =
        Inl (HTTPException 404 ''Sprint not found or has no habits'') \<and>
      get_daily_efforts str db sid d =
        Inl (HTTPException 500 (str (HTTPException 404 ''Sprint not found or has no habits'')))) \<and>
   (filter (\<lambda>h. h_sprint_id h = sid) (habits db) \<noteq> [] \<longrightarrow>
      (\<exists>efforts. get_daily_efforts str db sid d = Inr efforts \<and>
         map habit_id efforts = map h_id (filter (\<lambda>h. h_sprint_id h = sid) (habits db)) \<and>
         map habit_name efforts = map h_name (filter (\<lambda>h. h_sprint_id h = sid) (habits db)) \<and>
         (\<forall>k < length efforts.
            (let logs = filter (\<lambda>e. e_habit_id e = habit_id (efforts ! k) \<and> e_date e = d)
                          (effort_logs db)
             in hours (efforts ! k) = (if logs = [] then 0 else e_hours (hd logs)) \<and>
                (at_most_one (effort_logs db) \<longrightarrow>
                   (\<forall>e \<in> set logs. hours (efforts ! k) = e_hours e))))))"
proof -
  let ?hs = "filter (\<lambda>h. h_sprint_id h = sid) (habits db)"
  let ?entry = "\<lambda>habit. \<lparr>habit_name = h_name habit, habit_id = h_id habit,
       hours = (case find (\<lambda>e. e_habit_id e = h_id habit \<and> e_date e = d) (effort_logs db) of
                  Some effort \<Rightarrow> e_hours effort | None \<Rightarrow> 0)\<rparr>"
  have empty: "get_daily_efforts_body db sid d =
        Inl (HTTPException 404 ''Sprint not found or has no habits'') \<and>
      get_daily_efforts str db sid d =
        Inl (HTTPException 500 (str (HTTPException 404 ''Sprint not found or has no habits'')))"
    if "?hs = []"
    using that by (simp add: get_daily_efforts_def get_daily_efforts_body_def except_Exception_def)
  have listing: "\<exists>efforts. get_daily_efforts str db sid d = Inr efforts \<and>
         map habit_id efforts = map h_id ?hs \<and> map habit_name efforts = map h_name ?hs \<and>
         (\<forall>k < length efforts.
            (let logs = filter (\<lambda>e. e_habit_id e = habit_id (efforts ! k) \<and> e_date e = d)
                          (effort_logs db)
             in hours (efforts ! k) = (if logs = [] then 0 else e_hours (hd logs)) \<and>
                (at_most_one (effort_logs db) \<longrightarrow>
                   (\<forall>e \<in> set logs. hours (efforts ! k) = e_hours e))))"
    if ne: "?hs \<noteq> []"
  proof (intro exI [of _ "map ?entry ?hs"] conjI allI impI)
    show "get_daily_efforts str db sid d = Inr (map ?entry ?hs)"
      using ne by (simp add: get_daily_efforts_def get_daily_efforts_body_def except_Exception_def)
    show "map habit_id (map ?entry ?hs) = map h_id ?hs" by (simp add: comp_def)
    show "map habit_name (map ?entry ?hs) = map h_name ?hs" by (simp add: comp_def)
    fix k assume k: "k < length (map ?entry ?hs)"
    define habit where "habit = ?hs ! k"
    define logs where "logs = filter (\<lambda>e. e_habit_id e = h_id habit \<and> e_date e = d) (effort_logs db)"
    have entry: "map ?entry ?hs ! k = ?entry habit" using k by (simp add: habit_def)
    have hrs: "hours (?entry habit) = (if logs = [] then 0 else e_hours (hd logs))"
      by (simp add: find_filter_hd [of _ "effort_logs db"] logs_def split: list.split)
    have uniq: "hours (?entry habit) = e_hours e" if amo: "at_most_one (effort_logs db)"
      and e: "e \<in> set logs" for e
    proof -
      from e have mem: "e \<in> set (effort_logs db)" and key: "e_habit_id e = h_id habit" "e_date e = d"
        by (auto simp: logs_def)
      from at_most_one_filter [OF amo mem] key have "logs = [e]" by (simp add: logs_def)
      with hrs show ?thesis by simp
    qed
    show "let logs = filter (\<lambda>e. e_habit_id e = habit_id (map ?entry ?hs ! k) \<and> e_date e = d)
                          (effort_logs db)
             in hours (map ?entry ?hs ! k) = (if logs = [] then 0 else e_hours (hd logs)) \<and>
                (at_most_one (effort_logs db) \<longrightarrow>
                   (\<forall>e \<in> set logs. hours (map ?entry ?hs ! k) = e_hours e))"
      unfolding entry Let_def using hrs uniq by (simp add: logs_def)
  qed
  from empty listing show ?thesis by blast
qed

lemma next_id_greater: "x \<in> set ids \<Longrightarrow> x < next_id ids"
  using fold_max_mem [of x ids 0] by (simp add: next_id_def)

text \<open>
  C9. \<open>create_sprint\<close> succeeds for every request, whatever the weights, the order of
  the dates and the target hours. It appends one sprint row, with a new identity and
  the submitted fields, and one habit row per submitted habit, in order, each with the
  submitted fields, the new sprint's identity and an identity of its own, distinct from
  each other and from those of the existing habit rows. It answers with the sprint's
  identity and a dictionary whose keys are the submitted names, and which maps the name
  of a habit to that habit's identity when no later submitted habit has the same name:
  of two habits with one name both are persisted, and the later one is in the dictionary.
\<close>

theorem create_sprint_persists:
  "\<exists>ids db' new.
     create_sprint str now sprint db =
       Inr (\<lparr>sprint_id = next_id (map s_id (sprints db)), habit_ids = ids\<rparr>, db') \<and>
     next_id (map s_id (sprints db)) \<notin> s_id ` set (sprints db) \<and>
     sprints db' = sprints db @
       [\<lparr>s_id = next_id (map s_id (sprints db)), s_name = sc_name sprint,
         s_start_date = sc_start_date sprint, s_end_date = sc_end_date sprint,
         s_created_at = now\<rparr>] \<and>
     habits db' = habits db @ new \<and> effort_logs db' = effort_logs db \<and>
     length new = length (sc_habits sprint) \<and>
     (\<forall>k < length new.
        new ! k = \<lparr>h_id = next_id (map h_id (habits db)) + int k,
                   h_sprint_id = next_id (map s_id (sprints db)),
                   h_name = hc_name (sc_habits sprint ! k),
                   h_weight = hc_weight (sc_habits sprint ! k),
                   h_target_hours = hc_target_hours (sc_habits sprint ! k)\<rparr>) \<and>
     distinct (map h_id new) \<and> set (map h_id new) \<inter> set (map h_id (habits db)) = {} \<and>
     dom ids = hc_name ` set (sc_habits sprint) \<and>
     (\<forall>k < length new.
        (\<forall>j. k < j \<and> j < length new \<longrightarrow> h_name (new ! j) \<noteq> h_name (new ! k)) \<longrightarrow>
        ids (h_name (new ! k)) = Some (h_id (new ! k)))"
proof -
  let ?sid = "next_id (map s_id (sprints db))"
  let ?base = "next_id (map h_id (habits db))"
  let ?new = "new_habits ?sid ?base (sc_habits sprint)"
  let ?ids = "record_ids ?new Map.empty"
  let ?db' = "\<lparr>sprints = sprints db @
                 [\<lparr>s_id = ?sid, s_name = sc_name sprint, s_start_date = sc_start_date sprint,
                   s_end_date = sc_end_date sprint, s_created_at = now\<rparr>],
               habits = habits db @ ?new, effort_logs = effort_logs db\<rparr>"
  have run: "create_sprint str now sprint db = Inr (\<lparr>sprint_id = ?sid, habit_ids = ?ids\<rparr>, ?db')"
    by (simp add: create_sprint_def create_sprint_body_eq Let_def except_Exception_def)
  have fresh: "?sid \<notin> s_id ` set (sprints db)"
    using next_id_fresh [of "map s_id (sprints db)"] by simp
  have rows: "\<forall>k < length ?new. ?new ! k =
      \<lparr>h_id = ?base + int k, h_sprint_id = ?sid, h_name = hc_name (sc_habits sprint ! k),
       h_weight = hc_weight (sc_habits sprint ! k),
       h_target_hours = hc_target_hours (sc_habits sprint ! k)\<rparr>"
    by (simp add: nth_new_habits)
  have idk: "map h_id ?new ! k = ?base + int k" if "k < length (sc_habits sprint)" for k
    using that by (simp add: nth_new_habits)
  have dist_new: "distinct (map h_id ?new)"
    unfolding distinct_conv_nth
  proof (intro allI impI)
    fix i j assume "i < length (map h_id ?new)" "j < length (map h_id ?new)" "i \<noteq> j"
    then show "map h_id ?new ! i \<noteq> map h_id ?new ! j"
      using idk [of i] idk [of j] by simp
  qed
  have disj: "set (map h_id (habits db)) \<inter> set (map h_id ?new) = {}"
  proof -
    have "x \<notin> set (map h_id (habits db))" if "x \<in> set (map h_id ?new)" for x
    proof -
      from that obtain k where "k < length (map h_id ?new)" "x = map h_id ?new ! k"
        by (auto simp: in_set_conv_nth)
      then have "?base \<le> x" using idk [of k] by simp
      then show ?thesis using next_id_greater [of x "map h_id (habits db)"] by auto
    qed
    then show ?thesis by blast
  qed
  have disj': "set (map h_id ?new) \<inter> set (map h_id (habits db)) = {}"
    using disj by blast
  have dom: "dom ?ids = hc_name ` set (sc_habits sprint)"
  proof -
    have "h_name ` set (new_habits a b cs) = hc_name ` set cs" for a b cs
      by (induction cs arbitrary: b) auto
    then show ?thesis by (simp add: dom_record_ids)
  qed
  have last: "\<forall>k < length ?new.
        (\<forall>j. k < j \<and> j < length ?new \<longrightarrow> h_name (?new ! j) \<noteq> h_name (?new ! k)) \<longrightarrow>
        ?ids (h_name (?new ! k)) = Some (h_id (?new ! k))"
    using record_ids_last [of _ ?new Map.empty] by blast
  show ?thesis
    apply (intro exI [of _ ?ids] exI [of _ ?db'] exI [of _ ?new])
    using run fresh rows dist_new disj' dom last by simp
qed

text \<open>
  C6. \<open>delete_sprint\<close> always succeeds with its message. It removes the effort rows of
  every habit of the sprint, the habit rows of the sprint and the sprint row, and
  nothing else; afterwards \<open>get_sprint\<close> and \<open>get_daily_efforts\<close> for that identity
  fail with their not-found exceptions (surfaced as the generic failure). For an
  identity that no sprint of a reachable store has, the store is left as it was.
\<close>

theorem delete_sprint_cascade:
  "\<exists>db'. delete_sprint str db sid = Inr (''Sprint deleted successfully'', db') \<and>
     sprints db' = filter (\<lambda>s. s_id s \<noteq> sid) (sprints db) \<and>
     habits db' = filter (\<lambda>h. h_sprint_id h \<noteq> sid) (habits db) \<and>
     effort_logs db' =
       filter (\<lambda>e. \<forall>h \<in> set (habits db). h_sprint_id h = sid \<longrightarrow> e_habit_id e \<noteq> h_id h)
         (effort_logs db) \<and>
     get_sprint str db' sid =
       Inl (HTTPException 500 (str (HTTPException 404 ''Sprint not found''))) \<and>
     get_daily_efforts str db' sid d =
       Inl (HTTPException 500 (str (HTTPException 404 ''Sprint not found or has no habits''))) \<and>
     (reachable db \<and> sid \<notin> s_id ` set (sprints db) \<longrightarrow> db' = db)"
proof -
  let ?keep = "\<lambda>e. \<forall>h \<in> set (habits db). h_sprint_id h = sid \<longrightarrow> e_habit_id e \<noteq> h_id h"
  let ?db' = "\<lparr>sprints = filter (\<lambda>s. s_id s \<noteq> sid) (sprints db),
           habits = filter (\<lambda>h. h_sprint_id h \<noteq> sid) (habits db),
           effort_logs = filter ?keep (effort_logs db)\<rparr>"
  have "filter (\<lambda>e. e_habit_id e \<notin> h_id ` {h \<in> set (habits db). h_sprint_id h = sid})
          (effort_logs db) = filter ?keep (effort_logs db)"
    by (rule filter_cong) auto
  then have run: "delete_sprint str db sid = Inr (''Sprint deleted successfully'', ?db')"
    by (simp only: delete_sprint_def delete_sprint_body_eq except_Exception_def sum.case)
  have gone: "get_sprint str ?db' sid =
       Inl (HTTPException 500 (str (HTTPException 404 ''Sprint not found'')))"
    using get_sprint_missing(2) [of sid ?db' str] by auto
  have no_habits: "filter (\<lambda>h. h_sprint_id h = sid) (habits ?db') = []"
    by (simp add: filter_empty_conv)
  then have listing: "get_daily_efforts str ?db' sid d =
       Inl (HTTPException 500 (str (HTTPException 404 ''Sprint not found or has no habits'')))"
    by (simp add: get_daily_efforts_def get_daily_efforts_body_def except_Exception_def)
  have noop: "?db' = db" if "reachable db" "sid \<notin> s_id ` set (sprints db)"
  proof -
    from reachable_habits_owned [OF that(1)] that(2)
    have nh: "\<forall>h \<in> set (habits db). h_sprint_id h \<noteq> sid"
      by (auto simp: habits_owned_def)
    have ns: "\<forall>s \<in> set (sprints db). s_id s \<noteq> sid" using that(2) by auto
    have "filter (\<lambda>s. s_id s \<noteq> sid) (sprints db) = sprints db"
      using ns by (simp add: filter_id_conv)
    moreover have "filter (\<lambda>h. h_sprint_id h \<noteq> sid) (habits db) = habits db"
      using nh by (simp add: filter_id_conv)
    moreover have "filter ?keep (effort_logs db) = effort_logs db"
      using nh by (simp add: filter_id_conv)
    ultimately show ?thesis by simp
  qed
  show ?thesis
    apply (intro exI [of _ ?db'])
    using run gone listing noop by simp
qed

section \<open>The statements at concrete stores\<close>

lemma busy_find:
  "find (\<lambda>s. s_id s = 1) (sprints busy_db) =
     Some \<lparr>s_id = 1, s_name = ''Q1'', s_start_date = 1, s_end_date = 3, s_created_at = 0\<rparr>"
  by (simp add: busy_db_def)

lemma busy_fetch: "fetch_efforts busy_db 1 =
   [\<lparr>j_date = 0, j_hours = 5, j_habit_id = 1, j_weight = 50, j_target_hours = 2\<rparr>,
    \<lparr>j_date = 1, j_hours = 1, j_habit_id = 1, j_weight = 50, j_target_hours = 2\<rparr>,
    \<lparr>j_date = 1, j_hours = 2, j_habit_id = 2, j_weight = 30, j_target_hours = 1\<rparr>,
    \<lparr>j_date = 7, j_hours = 1, j_habit_id = 2, j_weight = 30, j_target_hours = 1\<rparr>,
    \<lparr>j_date = 9, j_hours = 1, j_habit_id = 3, j_weight = 20, j_target_hours = 0\<rparr>]"
  by (simp add: fetch_efforts_def busy_db_def)

lemma busy_get_sprint: "get_sprint str busy_db 1 = Inr busy_response"
  by (simp add: get_sprint_def get_sprint_body_def except_Exception_def fetch_efforts_def
      busy_db_def busy_response_def Let_def numeral_3_eq_3)

text \<open>
  C1 at the busy store: the retrieval succeeds although a habit has target 0 (its only
  log is out of range), and the two logs of day 1 add up: half of 50 for one hour
  against a target of two, and the full 30 for two hours against a target of one.
\<close>

theorem get_sprint_scores_witness:
  "find (\<lambda>s. s_id s = 1) (sprints busy_db) =
     Some \<lparr>s_id = 1, s_name = ''Q1'', s_start_date = 1, s_end_date = 3, s_created_at = 0\<rparr> \<and>
   get_sprint str_exn busy_db 1 = Inr busy_response \<and>
   length (r_days busy_response) = 3 \<and>
   r_days busy_response ! 0 = Some (min (1 / 2) 1 * 50 + min (2 / 1) 1 * 30) \<and>
   r_days busy_response ! 0 = Some 55 \<and>
   r_days busy_response ! 1 = None"
proof -
  let ?sprint = "\<lparr>s_id = 1, s_name = ''Q1'', s_start_date = 1, s_end_date = 3, s_created_at = 0\<rparr>"
  have nz: "\<forall>e \<in> set (fetch_efforts busy_db 1).
           s_start_date ?sprint \<le> j_date e \<and> j_date e \<le> s_end_date ?sprint \<longrightarrow>
           j_target_hours e \<noteq> 0"
    by (simp add: busy_fetch)
  from get_sprint_scores [OF busy_find nz, of str_exn] obtain r where
    run: "get_sprint str_exn busy_db 1 = Inr r" and
    len: "length (r_days r) = nat (s_end_date ?sprint - s_start_date ?sprint + 1)" and
    slots: "\<forall>i < length (r_days r).
              (let logs = filter (\<lambda>e. j_date e - s_start_date ?sprint = int i)
                            (fetch_efforts busy_db 1) in
               r_days r ! i =
                 (if logs = [] then None
                  else Some (\<Sum>e\<leftarrow>logs. min (j_hours e / j_target_hours e) 1 * j_weight e)) \<and>
               ((\<forall>e \<in> set logs. 0 < j_target_hours e \<and> j_target_hours e \<le> j_hours e) \<longrightarrow>
                  r_days r ! i = (if logs = [] then None else Some (\<Sum>e\<leftarrow>logs. j_weight e))))"
    by blast
  from run have r: "r = busy_response" by (simp add: busy_get_sprint)
  from len have l3: "length (r_days r) = 3" by simp
  from l3 slots [rule_format, of 0]
  have s0: "r_days r ! 0 = Some (min (1 / 2) 1 * 50 + min (2 / 1) 1 * 30)"
    by (simp add: busy_fetch Let_def)
  from l3 slots [rule_format, of 1]
  have s1: "r_days r ! 1 = None"
    by (simp add: busy_fetch Let_def)
  from s0 have s0': "r_days r ! 0 = Some 55" by simp
  from busy_find run l3 s0 s0' s1 show ?thesis unfolding r by blast
qed

text \<open>
  C2 at the busy store: the three logs outside the range change nothing, one of them
  for a habit with target 0; three slots, the first set, the other two unset.
\<close>

theorem get_sprint_days_witness:
  "get_sprint str_exn
     (busy_db\<lparr>effort_logs :=
        [\<lparr>e_id = 2, e_habit_id = 1, e_date = 1, e_hours = 1, e_created_at = 0\<rparr>,
         \<lparr>e_id = 3, e_habit_id = 2, e_date = 1, e_hours = 2, e_created_at = 0\<rparr>]\<rparr>) 1
     = get_sprint str_exn busy_db 1 \<and>
   get_sprint str_exn busy_db 1 = Inr busy_response \<and>
   int (length (r_days busy_response)) = 3 - 1 + 1 \<and>
   r_days busy_response ! 0 \<noteq> None \<and> r_days busy_response ! 1 = None \<and>
   r_days busy_response ! 2 = None"
proof -
  let ?sprint = "\<lparr>s_id = 1, s_name = ''Q1'', s_start_date = 1, s_end_date = 3, s_created_at = 0\<rparr>"
  note days_fact = get_sprint_days [OF busy_find, of str_exn]
  have kept: "filter (\<lambda>l. s_start_date ?sprint \<le> e_date l \<and> e_date l \<le> s_end_date ?sprint)
                (effort_logs busy_db) =
        [\<lparr>e_id = 2, e_habit_id = 1, e_date = 1, e_hours = 1, e_created_at = 0\<rparr>,
         \<lparr>e_id = 3, e_habit_id = 2, e_date = 1, e_hours = 2, e_created_at = 0\<rparr>]"
    by (simp add: busy_db_def)
  from days_fact have ignored: "get_sprint str_exn
     (busy_db\<lparr>effort_logs :=
        [\<lparr>e_id = 2, e_habit_id = 1, e_date = 1, e_hours = 1, e_created_at = 0\<rparr>,
         \<lparr>e_id = 3, e_habit_id = 2, e_date = 1, e_hours = 2, e_created_at = 0\<rparr>]\<rparr>) 1
     = get_sprint str_exn busy_db 1"
    unfolding kept by blast
  have nz: "\<not> (\<exists>e \<in> set (fetch_efforts busy_db 1).
             s_start_date ?sprint \<le> j_date e \<and> j_date e \<le> s_end_date ?sprint \<and>
             j_target_hours e = 0)"
    by (simp add: busy_fetch)
  from days_fact nz obtain r where
    run: "get_sprint str_exn busy_db 1 = Inr r" and
    len: "s_start_date ?sprint \<le> s_end_date ?sprint \<longrightarrow>
            int (length (r_days r)) = s_end_date ?sprint - s_start_date ?sprint + 1" and
    unset: "\<forall>i < length (r_days r).
                  (r_days r ! i = None) =
                  (\<forall>e \<in> set (fetch_efforts busy_db 1). j_date e - s_start_date ?sprint \<noteq> int i)"
    by blast
  from run have r: "r = busy_response" by (simp add: busy_get_sprint)
  from len have l: "int (length (r_days r)) = 3 - 1 + 1" by simp
  from l have l3: "length (r_days r) = 3" by simp
  from l3 unset [rule_format, of 0] have u0: "r_days r ! 0 \<noteq> None" by (simp add: busy_fetch)
  from l3 unset [rule_format, of 1] have u1: "r_days r ! 1 = None" by (simp add: busy_fetch)
  from l3 unset [rule_format, of 2] have u2: "r_days r ! 2 = None" by (simp add: busy_fetch)
  from ignored run l u0 u1 u2 show ?thesis unfolding r by blast
qed

text \<open>
  C2 as stated fails for a sprint that ends before it starts: with start day 5 and end
  day 1 the response has no slot at all, while \<open>(end_date - start_date).days + 1\<close>
  is -3.
\<close>

theorem days_length_counterexample:
  "get_sprint str_exn reversed_db 1 =
     Inr \<lparr>r_id = 1, r_name = ''Q1'', r_start_date = 5, r_end_date = 1,
          r_habits = [\<lparr>h_id = 1, h_sprint_id = 1, h_name = ''Read'', h_weight = 50,
                       h_target_hours = 2\<rparr>],
          r_days = []\<rparr> \<and>
   int (length ([] :: real option list)) \<noteq> 1 - 5 + 1"
  by (simp add: get_sprint_def get_sprint_body_def except_Exception_def fetch_efforts_def
      reversed_db_def Let_def)

text \<open>
  C10 as stated fails for a sprint that ends before it starts: with start day 10 and
  end day 3 the response has no slot, while \<open>(end_date - start_date).days + 1\<close>
  is -6.
\<close>

theorem habitless_sprint_counterexample:
  "get_sprint str_exn habitless_reversed_db 1 =
     Inr \<lparr>r_id = 1, r_name = ''Q1'', r_start_date = 10, r_end_date = 3, r_habits = [],
          r_days = []\<rparr> \<and>
   int (length ([] :: real option list)) \<noteq> 3 - 10 + 1"
  by (simp add: get_sprint_def get_sprint_body_def except_Exception_def fetch_efforts_def
      habitless_reversed_db_def Let_def)

text \<open>
  C10 at a two-day sprint without habits.
\<close>

theorem habitless_sprint_witness:
  "find (\<lambda>s. s_id s = 1) (sprints habitless_db) =
     Some \<lparr>s_id = 1, s_name = ''Q1'', s_start_date = 1, s_end_date = 2, s_created_at = 0\<rparr> \<and>
   get_sprint str_exn habitless_db 1 =
     Inr \<lparr>r_id = 1, r_name = ''Q1'', r_start_date = 1, r_end_date = 2, r_habits = [],
          r_days = [None, None]\<rparr> \<and>
   get_daily_efforts str_exn habitless_db 1 1 =
     Inl (HTTPException 500 ''Sprint not found or has no habits'')"
proof -
  have f: "find (\<lambda>s. s_id s = 1) (sprints habitless_db) =
     Some \<lparr>s_id = 1, s_name = ''Q1'', s_start_date = 1, s_end_date = 2, s_created_at = 0\<rparr>"
    by (simp add: habitless_db_def)
  have h: "\<forall>h \<in> set (habits habitless_db). h_sprint_id h \<noteq> 1"
    by (simp add: habitless_db_def)
  from habitless_sprint [OF f h, of str_exn 1] f show ?thesis
    by (simp add: str_exn_def numeral_2_eq_2)
qed

text \<open>
  C1 as stated fails when the target is not positive. One hour logged against a target
  of -2 is more than the target, and the day's score is -25, not the weight 50. One
  hour logged against a target of 0 is more than the target, and the retrieval fails:
  the log contributes nothing.
\<close>

theorem capped_at_weight_counterexample:
  "get_sprint str_exn negative_target_db 1 =
     Inr \<lparr>r_id = 1, r_name = ''Q1'', r_start_date = 1, r_end_date = 1,
          r_habits = [\<lparr>h_id = 1, h_sprint_id = 1, h_name = ''Read'', h_weight = 50,
                       h_target_hours = - 2\<rparr>],
          r_days = [Some (- 25)]\<rparr> \<and>
   (- 2 :: real) < 1 \<and> Some (- 25 :: real) \<noteq> Some 50 \<and>
   get_sprint str_exn zero_target_db 1 = Inl (HTTPException 500 ''float division by zero'') \<and>
   (0 :: real) < 1"
  by (simp add: get_sprint_def get_sprint_body_def except_Exception_def fetch_efforts_def
      negative_target_db_def zero_target_db_def str_exn_def Let_def)

text \<open>
  C5 at a concrete store: target 0, one log on the second day of the sprint.
\<close>

theorem get_sprint_zero_target_witness:
  "get_sprint_body zero_target_db 1 = Inl ZeroDivisionError \<and>
   get_sprint str_exn zero_target_db 1 = Inl (HTTPException 500 ''float division by zero'')"
proof -
  let ?s = "\<lparr>s_id = 1, s_name = ''Q1'', s_start_date = 1, s_end_date = 3, s_created_at = 0\<rparr>"
  let ?h = "\<lparr>h_id = 1, h_sprint_id = 1, h_name = ''Read'', h_weight = 50, h_target_hours = 0\<rparr>"
  let ?l = "\<lparr>e_id = 1, e_habit_id = 1, e_date = 2, e_hours = 1, e_created_at = 0\<rparr>"
  have "find (\<lambda>s. s_id s = 1) (sprints zero_target_db) = Some ?s"
    and "?h \<in> set (habits zero_target_db)" and "h_sprint_id ?h = 1" and "h_target_hours ?h = 0"
    and "?l \<in> set (effort_logs zero_target_db)" and "e_habit_id ?l = h_id ?h"
    and "s_start_date ?s \<le> e_date ?l" and "e_date ?l \<le> s_end_date ?s"
    by (simp_all add: zero_target_db_def)
  from get_sprint_zero_target [OF this, of str_exn] show ?thesis
    by (simp add: str_exn_def)
qed

text \<open>
  C8 at the empty store.
\<close>

theorem get_sprint_absent_witness:
  "1 \<notin> s_id ` set (sprints empty_db) \<and>
   get_sprint_body empty_db 1 = Inl (HTTPException 404 ''Sprint not found'') \<and>
   get_sprint str_exn empty_db 1 = Inl (HTTPException 500 ''Sprint not found'')"
proof -
  have h: "1 \<notin> s_id ` set (sprints empty_db)" by (simp add: empty_db_def)
  from get_sprint_absent [OF h, of str_exn] h show ?thesis by (simp add: str_exn_def)
qed

text \<open>
  C3 at the empty store: hours 3, then hours 5, for habit 1 on day 1.
\<close>

theorem upsert_one_row_witness:
  "at_most_one (effort_logs empty_db) \<and>
   (\<exists>r1 db1 row1 r2 db2 row2.
     log_effort str_exn 7 \<lparr>ec_habit_id = 1, ec_date = 1, ec_hours = 3\<rparr> empty_db = Inr (r1, db1) \<and>
     filter (\<lambda>e. e_habit_id e = 1 \<and> e_date e = 1) (effort_logs db1) = [row1] \<and>
     e_hours row1 = 3 \<and>
     log_effort str_exn 8 \<lparr>ec_habit_id = 1, ec_date = 1, ec_hours = 5\<rparr> db1 = Inr (r2, db2) \<and>
     filter (\<lambda>e. e_habit_id e = 1 \<and> e_date e = 1) (effort_logs db2) = [row2] \<and>
     e_hours row2 = 5)"
proof -
  have h: "at_most_one (effort_logs empty_db)" by (simp add: empty_db_def at_most_one_def)
  from upsert_one_row [OF h, of str_exn 7 1 1 3 8 5] h show ?thesis by blast
qed

text \<open>
  C4 at the scenario's store: an update of the first day's log, and an insert of -1
  hours for a habit that does not exist.
\<close>

theorem log_effort_upsert_witness:
  "log_effort str_exn 9 \<lparr>ec_habit_id = 1, ec_date = 1, ec_hours = 4\<rparr> q1_db =
     Inr (Message ''Effort updated successfully'',
          q1_db\<lparr>effort_logs :=
            [\<lparr>e_id = 1, e_habit_id = 1, e_date = 1, e_hours = 4, e_created_at = 0\<rparr>,
             \<lparr>e_id = 2, e_habit_id = 1, e_date = 2, e_hours = 3, e_created_at = 0\<rparr>]\<rparr>) \<and>
   log_effort str_exn 9 \<lparr>ec_habit_id = 5, ec_date = 1, ec_hours = - 1\<rparr> q1_db =
     Inr (Effort_id 3,
          q1_db\<lparr>effort_logs :=
            [\<lparr>e_id = 1, e_habit_id = 1, e_date = 1, e_hours = 1, e_created_at = 0\<rparr>,
             \<lparr>e_id = 2, e_habit_id = 1, e_date = 2, e_hours = 3, e_created_at = 0\<rparr>,
             \<lparr>e_id = 3, e_habit_id = 5, e_date = 1, e_hours = - 1, e_created_at = 9\<rparr>]\<rparr>)"
  using log_effort_upsert [of q1_db "\<lparr>ec_habit_id = 1, ec_date = 1, ec_hours = 4\<rparr>" str_exn 9]
    log_effort_upsert [of q1_db "\<lparr>ec_habit_id = 5, ec_date = 1, ec_hours = - 1\<rparr>" str_exn 9]
  by (simp add: q1_db_def log_effort_body_def next_id_def)

text \<open>
  C6 at the empty store (an absent identity) and at the scenario's store (the cascade
  leaves the empty store).
\<close>

theorem delete_sprint_cascade_witness:
  "reachable empty_db \<and> 7 \<notin> s_id ` set (sprints empty_db) \<and>
   delete_sprint str_exn empty_db 7 = Inr (''Sprint deleted successfully'', empty_db) \<and>
   delete_sprint str_exn q1_db 1 = Inr (''Sprint deleted successfully'', empty_db)"
proof -
  have r: "reachable empty_db" unfolding empty_db_def by (rule reachable.start)
  have a: "7 \<notin> s_id ` set (sprints empty_db)" by (simp add: empty_db_def)
  from delete_sprint_cascade [of str_exn empty_db 7 0] r a
  have noop: "delete_sprint str_exn empty_db 7 = Inr (''Sprint deleted successfully'', empty_db)"
    by auto
  from delete_sprint_cascade [of str_exn q1_db 1 0]
  obtain db' where d: "delete_sprint str_exn q1_db 1 = Inr (''Sprint deleted successfully'', db')"
    and "sprints db' = []" "habits db' = []" "effort_logs db' = []"
    by (auto simp: q1_db_def)
  then have "db' = empty_db" by (simp add: empty_db_def)
  with d r a noop show ?thesis by simp
qed

text \<open>
  C7 at the scenario's store: a day with a log, a day without, and a sprint identity
  that has no habits.
\<close>

theorem get_daily_efforts_listing_witness:
  "get_daily_efforts str_exn q1_db 1 2 = Inr [\<lparr>habit_name = ''Read'', habit_id = 1, hours = 3\<rparr>] \<and>
   get_daily_efforts str_exn q1_db 1 3 = Inr [\<lparr>habit_name = ''Read'', habit_id = 1, hours = 0\<rparr>] \<and>
   get_daily_efforts str_exn q1_db 2 2 =
     Inl (HTTPException 500 ''Sprint not found or has no habits'')"
  using get_daily_efforts_listing [of 1 q1_db 2 str_exn]
    get_daily_efforts_listing [of 1 q1_db 3 str_exn]
    get_daily_efforts_listing [of 2 q1_db 2 str_exn]
  by (simp add: q1_db_def str_exn_def get_daily_efforts_def get_daily_efforts_body_def
      except_Exception_def)

text \<open>
  C9 at the scenario's store: two habits named Read, a zero and a negative target, an
  end date before the start date.
\<close>

theorem create_sprint_persists_witness:
  "create_sprint str_exn 4
     \<lparr>sc_name = ''Q2'', sc_start_date = 9, sc_end_date = 2,
      sc_habits = [\<lparr>hc_name = ''Read'', hc_weight = 70, hc_target_hours = 0\<rparr>,
                   \<lparr>hc_name = ''Read'', hc_weight = 80, hc_target_hours = - 1\<rparr>]\<rparr> q1_db =
   Inr (\<lparr>sprint_id = 2, habit_ids = [''Read'' \<mapsto> 3]\<rparr>,
        q1_db\<lparr>sprints := sprints q1_db @
                [\<lparr>s_id = 2, s_name = ''Q2'', s_start_date = 9, s_end_date = 2, s_created_at = 4\<rparr>],
              habits := habits q1_db @
                [\<lparr>h_id = 2, h_sprint_id = 2, h_name = ''Read'', h_weight = 70, h_target_hours = 0\<rparr>,
                 \<lparr>h_id = 3, h_sprint_id = 2, h_name = ''Read'', h_weight = 80,
                  h_target_hours = - 1\<rparr>]\<rparr>)"
  using create_sprint_persists [of str_exn 4
     "\<lparr>sc_name = ''Q2'', sc_start_date = 9, sc_end_date = 2,
      sc_habits = [\<lparr>hc_name = ''Read'', hc_weight = 70, hc_target_hours = 0\<rparr>,
                   \<lparr>hc_name = ''Read'', hc_weight = 80, hc_target_hours = - 1\<rparr>]\<rparr>" q1_db]
  by (simp add: create_sprint_def create_sprint_body_def except_Exception_def q1_db_def
      next_id_def Let_def)

end
